theory Spec2Isabelle
  imports Main "HOL-Library.Word" "HOL-Library.Char_ord" "HOL-Library.List_Lexorder"
    "HOL-Library.AList"
begin

unbundle bit_operations_syntax

section \<open>Bytes, hexadecimal text and C library conversions\<close>

text \<open>
  A \<^verbatim>\<open>std::string\<close> is a list of 8-bit characters (it may hold NUL); a
  \<^verbatim>\<open>vector<unsigned char>\<close> is a list of bytes. Exceptions and undefined behaviour are
  values of the type \<open>error\<close>.
\<close>

type_synonym byte = "8 word"

datatype error =
    Runtime_error string
  | Invalid_argument
  | Out_of_range
  | Length_error
  | Undefined_behaviour

definition byte_of_char :: "char \<Rightarrow> byte" where
  "byte_of_char c = word_of_nat (of_char c)"

definition char_of_byte :: "byte \<Rightarrow> char" where
  "char_of_byte b = char_of (unat b)"

definition bytes_of_string :: "string \<Rightarrow> byte list" where
  "bytes_of_string s = map byte_of_char s"

definition string_of_bytes :: "byte list \<Rightarrow> string" where
  "string_of_bytes bs = map char_of_byte bs"

text \<open>\<^verbatim>\<open>s.c_str()\<close> read as a C string: the characters before the first NUL.\<close>

definition c_str :: "string \<Rightarrow> string" where
  "c_str s = takeWhile (\<lambda>c. c \<noteq> CHR 0x00) s"

text \<open>
  \<^verbatim>\<open>ss << hex << setw(2) << setfill('0') << (int)buffer[i]\<close>: two lower-case
  hexadecimal digits per byte.
\<close>

definition hex_digit :: "nat \<Rightarrow> char" where
  "hex_digit n = ''0123456789abcdef'' ! (n mod 16)"

definition hex_byte :: "byte \<Rightarrow> string" where
  "hex_byte b = [hex_digit (unat b div 16), hex_digit (unat b mod 16)]"

definition to_hex :: "byte list \<Rightarrow> string" where
  "to_hex bs = concat (map hex_byte bs)"

text \<open>
  \<^verbatim>\<open>strtol(byte.c_str(), nullptr, 16)\<close>: leading white space, an optional sign, an optional
  \<^verbatim>\<open>0x\<close> prefix, then the longest run of hexadecimal digits; 0 when there is none; the
  result is clamped to the range of \<^verbatim>\<open>long\<close>.
\<close>

definition isspace :: "char \<Rightarrow> bool" where
  "isspace c = (c \<in> set [CHR 0x20, CHR 0x09, CHR 0x0A, CHR 0x0B, CHR 0x0C, CHR 0x0D])"

definition hex_value :: "char \<Rightarrow> nat option" where
  "hex_value c =
     (let n = (of_char c :: nat) in
      if 48 \<le> n \<and> n \<le> 57 then Some (n - 48)
      else if 97 \<le> n \<and> n \<le> 102 then Some (n - 87)
      else if 65 \<le> n \<and> n \<le> 70 then Some (n - 55)
      else None)"

fun digits16 :: "int \<Rightarrow> string \<Rightarrow> int" where
  "digits16 acc [] = acc"
| "digits16 acc (c # cs) =
     (case hex_value c of None \<Rightarrow> acc | Some d \<Rightarrow> digits16 (16 * acc + int d) cs)"

definition split_sign :: "string \<Rightarrow> bool \<times> string" where
  "split_sign s =
     (case s of
        [] \<Rightarrow> (False, [])
      | c # r \<Rightarrow> if c = CHR ''-'' then (True, r) else if c = CHR ''+'' then (False, r) else (False, s))"

definition skip_0x :: "string \<Rightarrow> string" where
  "skip_0x s =
     (case s of
        a # b # c # r \<Rightarrow>
          if a = CHR ''0'' \<and> (b = CHR ''x'' \<or> b = CHR ''X'') \<and> hex_value c \<noteq> None
          then c # r else s
      | _ \<Rightarrow> s)"

definition clamp_long :: "int \<Rightarrow> int" where
  "clamp_long v = max (- (2 ^ 63)) (min (2 ^ 63 - 1) v)"

definition strtol16 :: "string \<Rightarrow> int" where
  "strtol16 s =
     (let (neg, r) = split_sign (dropWhile isspace (c_str s));
          v = digits16 0 (skip_0x r)
      in clamp_long (if neg then - v else v))"

text \<open>
  The decoding loop of \<^verbatim>\<open>decrypt_session_data\<close> and \<^verbatim>\<open>hash_with_salt\<close>:
  \<^verbatim>\<open>
  vector<unsigned char> out(hex.length() / 2);
  for (size_t i = 0; i < hex.length(); i += 2)
      out[i / 2] = (unsigned char)strtol(hex.substr(i, 2).c_str(), nullptr, 16);
  \<close>
  On a text of odd length the last iteration writes one element past the end of the
  vector: undefined behaviour, \<open>None\<close> here.
\<close>

fun substr2 :: "string \<Rightarrow> string list" where
  "substr2 (a # b # r) = [a, b] # substr2 r"
| "substr2 [a] = [[a]]"
| "substr2 [] = []"

definition from_hex :: "string \<Rightarrow> byte list option" where
  "from_hex hex =
     (if odd (length hex) then None
      else Some (map (\<lambda>byte. word_of_int (strtol16 byte)) (substr2 hex)))"

section \<open>Payload encryption (class SessionEncryption)\<close>

text \<open>
  The calls into OpenSSL's EVP interface are modelled as AES-256 in CBC mode with PKCS\#7
  padding over byte lists. The block cipher itself is a parameter: \<open>E key block\<close> and
  \<open>D key block\<close>. The context keeps the chaining value, the bytes of an incomplete
  block, and (when decrypting) the last plaintext block, held back until the final call.
\<close>

definition MASTER_KEY :: "byte list" where
  "MASTER_KEY = map word_of_nat [0..<32]"

definition MASTER_IV :: "byte list" where
  "MASTER_IV = map word_of_nat [0..<16]"

type_synonym block_cipher = "byte list \<Rightarrow> byte list \<Rightarrow> byte list"

record EVP_CIPHER_CTX =
  ctx_key :: "byte list"
  ctx_iv :: "byte list"
  ctx_buf :: "byte list"
  ctx_final :: "byte list option"

definition xor_block :: "byte list \<Rightarrow> byte list \<Rightarrow> byte list" where
  "xor_block a b = map2 (XOR) a b"

function blocks16 :: "byte list \<Rightarrow> byte list list" where
  "blocks16 bs = (if length bs < 16 then [] else take 16 bs # blocks16 (drop 16 bs))"
  by pat_completeness auto
termination
  by (relation "measure length") auto

declare blocks16.simps [simp del]

fun cbc_encrypt :: "(byte list \<Rightarrow> byte list) \<Rightarrow> byte list \<Rightarrow> byte list list \<Rightarrow> byte list list" where
  "cbc_encrypt enc prev [] = []"
| "cbc_encrypt enc prev (p # ps) =
     (let c = enc (xor_block p prev) in c # cbc_encrypt enc c ps)"

fun cbc_decrypt :: "(byte list \<Rightarrow> byte list) \<Rightarrow> byte list \<Rightarrow> byte list list \<Rightarrow> byte list list" where
  "cbc_decrypt dec prev [] = []"
| "cbc_decrypt dec prev (c # cs) = xor_block (dec c) prev # cbc_decrypt dec c cs"

definition EVP_EncryptInit_ex :: "byte list \<Rightarrow> byte list \<Rightarrow> EVP_CIPHER_CTX" where
  "EVP_EncryptInit_ex key iv = \<lparr>ctx_key = key, ctx_iv = iv, ctx_buf = [], ctx_final = None\<rparr>"

definition EVP_DecryptInit_ex :: "byte list \<Rightarrow> byte list \<Rightarrow> EVP_CIPHER_CTX" where
  "EVP_DecryptInit_ex key iv = \<lparr>ctx_key = key, ctx_iv = iv, ctx_buf = [], ctx_final = None\<rparr>"

text \<open>
  The lengths go through C \<^verbatim>\<open>int\<close>s: \<^verbatim>\<open>plaintext.length()\<close> and
  \<^verbatim>\<open>ciphertext.size()\<close> are converted from \<^verbatim>\<open>size_t\<close> to the \<^verbatim>\<open>int inl\<close> of the
  update calls (modulo \<open>2 ^ 32\<close>, read as two's complement), and the output lengths
  are added up in \<^verbatim>\<open>int\<close> variables. An update call reads the first \<open>inl\<close> bytes of
  its input, and does nothing when \<open>inl \<le> 0\<close>.
\<close>

definition int_of_size_t :: "nat \<Rightarrow> int" where
  "int_of_size_t n = sint (word_of_nat n :: 32 word)"

definition int_add :: "int \<Rightarrow> int \<Rightarrow> int" where
  "int_add a b = sint (word_of_int (a + b) :: 32 word)"

definition EVP_EncryptUpdate ::
  "block_cipher \<Rightarrow> EVP_CIPHER_CTX \<Rightarrow> byte list \<Rightarrow> int \<Rightarrow> byte list \<times> EVP_CIPHER_CTX" where
  "EVP_EncryptUpdate E ctx inp inl =
     (if inl \<le> 0 then ([], ctx)
      else
        let pending = ctx_buf ctx @ take (nat inl) inp;
            n = length pending div 16;
            out = cbc_encrypt (E (ctx_key ctx)) (ctx_iv ctx) (blocks16 (take (16 * n) pending))
        in (concat out, ctx\<lparr>ctx_iv := last (ctx_iv ctx # out), ctx_buf := drop (16 * n) pending\<rparr>))"

definition EVP_EncryptFinal_ex :: "block_cipher \<Rightarrow> EVP_CIPHER_CTX \<Rightarrow> byte list" where
  "EVP_EncryptFinal_ex E ctx =
     (let n = 16 - length (ctx_buf ctx);
          padded = ctx_buf ctx @ replicate n (word_of_nat n)
      in E (ctx_key ctx) (xor_block padded (ctx_iv ctx)))"

definition EVP_DecryptUpdate ::
  "block_cipher \<Rightarrow> EVP_CIPHER_CTX \<Rightarrow> byte list \<Rightarrow> int \<Rightarrow> byte list \<times> EVP_CIPHER_CTX" where
  "EVP_DecryptUpdate D ctx inp inl =
     (if inl \<le> 0 then ([], ctx)
      else
        let pending = ctx_buf ctx @ take (nat inl) inp;
            n = length pending div 16;
            cs = blocks16 (take (16 * n) pending);
            ps = (case ctx_final ctx of None \<Rightarrow> [] | Some f \<Rightarrow> [f])
                 @ cbc_decrypt (D (ctx_key ctx)) (ctx_iv ctx) cs;
            rest = drop (16 * n) pending;
            ctx' = ctx\<lparr>ctx_iv := last (ctx_iv ctx # cs), ctx_buf := rest\<rparr>
        in if rest = [] \<and> ps \<noteq> []
           then (concat (butlast ps), ctx'\<lparr>ctx_final := Some (last ps)\<rparr>)
           else (concat ps, ctx'\<lparr>ctx_final := None\<rparr>))"

text \<open>
  The final call fails (\<open>None\<close>) on an incomplete block, on no block at all, and on
  padding that is not \<open>n\<close> bytes of value \<open>n\<close> with \<open>1 \<le> n \<le> 16\<close>.
\<close>

definition EVP_DecryptFinal_ex :: "EVP_CIPHER_CTX \<Rightarrow> byte list option" where
  "EVP_DecryptFinal_ex ctx =
     (if ctx_buf ctx \<noteq> [] then None
      else case ctx_final ctx of
        None \<Rightarrow> None
      | Some f \<Rightarrow>
          (let n = unat (last f) in
           if f = [] \<or> n = 0 \<or> n > 16 then None
           else if list_all (\<lambda>b. b = word_of_nat n) (drop (16 - n) f)
           then Some (take (16 - n) f) else None))"

text \<open>
  \<^verbatim>\<open>encrypt_session_data\<close> prints the first \<^verbatim>\<open>ciphertext_len\<close> bytes of its buffer, the
  sum of the two reported lengths.
\<close>

definition encrypt_session_data :: "block_cipher \<Rightarrow> string \<Rightarrow> string" where
  "encrypt_session_data E plaintext =
     (let ctx = EVP_EncryptInit_ex MASTER_KEY MASTER_IV;
          (out1, ctx) = EVP_EncryptUpdate E ctx (bytes_of_string plaintext)
                          (int_of_size_t (length plaintext));
          ciphertext_len = int (length out1);
          out2 = EVP_EncryptFinal_ex E ctx;
          ciphertext_len = int_add ciphertext_len (int (length out2))
      in to_hex (take (nat ciphertext_len) (out1 @ out2)))"

text \<open>
  The source ignores the status of the final call and adds the length it reports, which is
  0 when the call fails. The odd-length write of the hexadecimal loop is undefined
  behaviour, and \<^verbatim>\<open>string((char*)plaintext.data(), plaintext_len)\<close> with a negative
  \<^verbatim>\<open>plaintext_len\<close> asks for more than \<^verbatim>\<open>max_size()\<close> characters, which throws
  \<^verbatim>\<open>std::length_error\<close>.
\<close>

definition decrypt_session_data :: "block_cipher \<Rightarrow> string \<Rightarrow> error + string" where
  "decrypt_session_data D ciphertext_hex =
     (case from_hex ciphertext_hex of
        None \<Rightarrow> Inl Undefined_behaviour
      | Some ciphertext \<Rightarrow>
          (let ctx = EVP_DecryptInit_ex MASTER_KEY MASTER_IV;
               (out1, ctx) = EVP_DecryptUpdate D ctx ciphertext (int_of_size_t (length ciphertext));
               plaintext_len = int (length out1);
               out2 = (case EVP_DecryptFinal_ex ctx of None \<Rightarrow> [] | Some p \<Rightarrow> p);
               plaintext_len = int_add plaintext_len (int (length out2))
           in if plaintext_len < 0 then Inl Length_error
              else Inr (string_of_bytes (take (nat plaintext_len) (out1 @ out2)))))"

text \<open>
  What the round trip needs of the block cipher: on 16-byte blocks, under every key,
  encryption keeps the length and decryption undoes it.
\<close>

definition block_cipher_pair :: "block_cipher \<Rightarrow> block_cipher \<Rightarrow> bool" where
  "block_cipher_pair E D \<longleftrightarrow>
     (\<forall>key b. length b = 16 \<longrightarrow> length (E key b) = 16 \<and> D key (E key b) = b)"

section \<open>Rate limiter (class RateLimiter, six\_sessions.h)\<close>

text \<open>
  \<^verbatim>\<open>struct RateLimitEntry { int attempts = 0; time_t reset_time = 0; };\<close>
  The counter is a C \<^verbatim>\<open>int\<close>: a 32-bit word read as two's complement. The clock
  value \<^verbatim>\<open>time_t\<close> is modelled as an unbounded integer (seconds since the epoch).
\<close>

record RateLimitEntry =
  attempts :: "32 word"
  reset_time :: int

definition MAX_ATTEMPTS :: "32 word" where
  "MAX_ATTEMPTS = 5"

definition LOCKOUT_DURATION :: int where
  "LOCKOUT_DURATION = 15 * 60"

definition RESET_WINDOW :: int where
  "RESET_WINDOW = 60"

type_synonym rate_table = "string \<rightharpoonup> RateLimitEntry"

text \<open>
  \<^verbatim>\<open>auto& entry = ip_attempts[ip_address];\<close> on an \<^verbatim>\<open>unordered_map\<close>: a missing key is
  inserted with a default-constructed entry, and the reference is to the stored entry.
\<close>

definition default_entry :: RateLimitEntry where
  "default_entry = \<lparr>attempts = 0, reset_time = 0\<rparr>"

definition entry_at :: "rate_table \<Rightarrow> string \<Rightarrow> RateLimitEntry" where
  "entry_at tbl ip = (case tbl ip of None \<Rightarrow> default_entry | Some e \<Rightarrow> e)"

definition reset_if_expired :: "int \<Rightarrow> RateLimitEntry \<Rightarrow> RateLimitEntry" where
  "reset_if_expired now entry =
     (if now > reset_time entry
      then entry\<lparr>attempts := 0, reset_time := now + RESET_WINDOW\<rparr>
      else entry)"

definition is_rate_limited :: "string \<Rightarrow> int \<Rightarrow> rate_table \<Rightarrow> bool \<times> rate_table" where
  "is_rate_limited ip_address now tbl =
     (let entry = reset_if_expired now (entry_at tbl ip_address)
      in (if MAX_ATTEMPTS \<le>s attempts entry then True else False,
          tbl(ip_address \<mapsto> entry)))"

definition record_failed_attempt :: "string \<Rightarrow> int \<Rightarrow> rate_table \<Rightarrow> rate_table" where
  "record_failed_attempt ip_address now tbl =
     (let entry = reset_if_expired now (entry_at tbl ip_address)
      in tbl(ip_address \<mapsto> entry\<lparr>attempts := attempts entry + 1\<rparr>))"

definition clear_failed_attempts :: "string \<Rightarrow> rate_table \<Rightarrow> rate_table" where
  "clear_failed_attempts ip_address tbl =
     tbl(ip_address \<mapsto> (entry_at tbl ip_address)\<lparr>attempts := 0\<rparr>)"

text \<open>A run of failed attempts of one address, at the given clock readings in order.\<close>

definition record_failed_attempts :: "string \<Rightarrow> int list \<Rightarrow> rate_table \<Rightarrow> rate_table" where
  "record_failed_attempts ip_address ts tbl =
     fold (record_failed_attempt ip_address) ts tbl"

section \<open>The durable row store (six\_sql.h)\<close>

text \<open>
  A row is a \<^verbatim>\<open>map<string, string>\<close> from column names to text. A table is the list of
  its rows in insertion order, and the database maps table names to tables. A column that
  a row does not list reads as the empty string, as a NULL does through
  \<^verbatim>\<open>col_value ? col_value : ""\<close> and as a missing key does through \<^verbatim>\<open>operator[]\<close>.
  \<open>available\<close> says whether SQLite can open the database file; when it cannot, every
  operation returns early as the source does.
\<close>

type_synonym row = "(string \<times> string) list"

definition row_get :: "row \<Rightarrow> string \<Rightarrow> string" where
  "row_get r column = (case map_of r column of Some v \<Rightarrow> v | None \<Rightarrow> [])"

record SQLRow =
  cols :: row
  table_name :: string
  where_column :: string
  where_value :: string

record database =
  tables :: "string \<Rightarrow> row list"
  available :: bool
  pending_updates :: "(string \<times> SQLRow) list"

text \<open>\<^verbatim>\<open>sessions\<close> is declared with \<^verbatim>\<open>session_id_hash TEXT PRIMARY KEY\<close>.\<close>

definition primary_key :: "string \<Rightarrow> string option" where
  "primary_key table = (if table = ''sessions'' then Some ''session_id_hash'' else None)"

definition key_conflict :: "string \<Rightarrow> row \<Rightarrow> row list \<Rightarrow> bool" where
  "key_conflict table data rows =
     (case primary_key table of
        None \<Rightarrow> False
      | Some k \<Rightarrow> map_of data k \<noteq> None \<and> list_ex (\<lambda>r. map_of r k = map_of data k) rows)"

text \<open>
  Values reach SQLite through \<^verbatim>\<open>sqlite3_bind_text(stmt, i, value.c_str(), -1, ...)\<close> and
  come back through \<^verbatim>\<open>(const char*)sqlite3_column_text\<close>: as C strings, so a value is
  written and read up to its first NUL.
\<close>

definition bound_values :: "row \<Rightarrow> row" where
  "bound_values r = map (\<lambda>pair. (fst pair, c_str (snd pair))) r"

definition six_sql_insert :: "string \<Rightarrow> row \<Rightarrow> database \<Rightarrow> database" where
  "six_sql_insert table data d =
     (if \<not> available d then d
      else if data = [] \<or> key_conflict table (bound_values data) (tables d table) then d
      else d\<lparr>tables := (tables d)(table := tables d table @ [bound_values data])\<rparr>)"

text \<open>\<^verbatim>\<open>WHERE column = ?\<close> with the value bound as text.\<close>

definition matching :: "string \<Rightarrow> string \<Rightarrow> row \<Rightarrow> bool" where
  "matching column v r = (map_of r column = Some v)"

definition pending_key :: "string \<Rightarrow> string \<Rightarrow> string \<Rightarrow> string" where
  "pending_key table column v = table @ '':'' @ column @ '':'' @ v"

text \<open>
  \<^verbatim>\<open>six_sql_find_by\<close> stages the first matching row in \<^verbatim>\<open>pending_updates\<close> under the key
  \<^verbatim>\<open>table:column:value\<close> and returns a reference to the staged row; it returns a reference
  to an already staged row of that key also when the table has no matching row. The
  reference is modelled by the key. The value is a \<^verbatim>\<open>const char*\<close>.
\<close>

definition six_sql_find_by :: "string \<Rightarrow> string \<Rightarrow> string \<Rightarrow> database \<Rightarrow> string option \<times> database" where
  "six_sql_find_by table column val d =
     (if \<not> available d then (None, d)
      else
        let v = c_str val;
            key = pending_key table column v;
            d' = (case find (matching column v) (tables d table) of
                    None \<Rightarrow> d
                  | Some result \<Rightarrow>
                      d\<lparr>pending_updates :=
                          AList.update key
                            \<lparr>cols = bound_values result, table_name = table,
                             where_column = column, where_value = v\<rparr>
                            (pending_updates d)\<rparr>)
        in (if map_of (pending_updates d') key \<noteq> None then Some key else None, d'))"

text \<open>\<^verbatim>\<open>SQLRowRef::operator bool\<close>: a non-null pointer to a non-empty row.\<close>

definition row_found :: "database \<Rightarrow> string option \<Rightarrow> bool" where
  "row_found d ref =
     (case ref of
        None \<Rightarrow> False
      | Some key \<Rightarrow> (case map_of (pending_updates d) key of None \<Rightarrow> False | Some r \<Rightarrow> cols r \<noteq> []))"

definition row_read :: "database \<Rightarrow> string option \<Rightarrow> string \<Rightarrow> string" where
  "row_read d ref column =
     (case ref of
        None \<Rightarrow> []
      | Some key \<Rightarrow> (case map_of (pending_updates d) key of None \<Rightarrow> [] | Some r \<Rightarrow> row_get (cols r) column))"

definition row_write :: "string option \<Rightarrow> string \<Rightarrow> string \<Rightarrow> database \<Rightarrow> database" where
  "row_write ref column v d =
     (case ref of
        None \<Rightarrow> d
      | Some key \<Rightarrow>
          (case map_of (pending_updates d) key of
             None \<Rightarrow> d
           | Some r \<Rightarrow>
               d\<lparr>pending_updates :=
                   AList.update key (r\<lparr>cols := AList.update column v (cols r)\<rparr>) (pending_updates d)\<rparr>))"

text \<open>
  \<^verbatim>\<open>six_sql_commit\<close> visits the staged rows in key order. For each it reads the stored row
  of the staged row's \<^verbatim>\<open>WHERE\<close> clause, collects the columns whose staged value differs,
  and assigns them in every row the clause matches. Then it clears the staging map.
\<close>

definition commit_row :: "SQLRow \<Rightarrow> (string \<Rightarrow> row list) \<Rightarrow> (string \<Rightarrow> row list)" where
  "commit_row r tbls =
     (let v = c_str (where_value r);
          db_row = (case find (matching (where_column r) v) (tbls (table_name r)) of
                      None \<Rightarrow> [] | Some x \<Rightarrow> bound_values x);
          changed = filter (\<lambda>pair. row_get db_row (fst pair) \<noteq> snd pair) (cols r)
      in if changed = [] then tbls
         else tbls(table_name r :=
                map (\<lambda>x. if matching (where_column r) v x
                          then fold (\<lambda>pair. AList.update (fst pair) (c_str (snd pair))) changed x
                          else x)
                  (tbls (table_name r))))"

definition six_sql_commit :: "database \<Rightarrow> database" where
  "six_sql_commit d =
     (if \<not> available d then d
      else d\<lparr>tables := fold commit_row (map snd (sort_key fst (pending_updates d))) (tables d),
             pending_updates := []\<rparr>)"

text \<open>
  The one statement the session code passes to \<^verbatim>\<open>six_sql_exec\<close> after start-up:
  \<^verbatim>\<open>UPDATE sessions SET is_valid = 0 WHERE user_id = <n>\<close>.
\<close>

datatype statement = UPDATE_sessions_SET_is_valid_0_WHERE_user_id string

fun six_sql_exec :: "statement \<Rightarrow> database \<Rightarrow> database" where
  "six_sql_exec (UPDATE_sessions_SET_is_valid_0_WHERE_user_id n) d =
     (if \<not> available d then d
      else d\<lparr>tables := (tables d)(''sessions'' :=
               map (\<lambda>x. if matching ''user_id'' n x then AList.update ''is_valid'' ''0'' x else x)
                 (tables d ''sessions''))\<rparr>)"

text \<open>\<^verbatim>\<open>to_string(int)\<close> and \<^verbatim>\<open>stoi\<close>.\<close>

definition digit_char :: "nat \<Rightarrow> char" where
  "digit_char n = ''0123456789'' ! (n mod 10)"

function dec_digits :: "nat \<Rightarrow> string" where
  "dec_digits n = (if n < 10 then [digit_char n] else dec_digits (n div 10) @ [digit_char n])"
  by pat_completeness auto
termination
  by (relation "measure id") auto

declare dec_digits.simps [simp del]

definition to_string :: "int \<Rightarrow> string" where
  "to_string i = (if i < 0 then CHR ''-'' # dec_digits (nat (- i)) else dec_digits (nat i))"

definition digit_value :: "char \<Rightarrow> nat option" where
  "digit_value c =
     (let n = (of_char c :: nat) in if 48 \<le> n \<and> n \<le> 57 then Some (n - 48) else None)"

fun digits10 :: "int \<Rightarrow> string \<Rightarrow> int" where
  "digits10 acc [] = acc"
| "digits10 acc (c # cs) =
     (case digit_value c of None \<Rightarrow> acc | Some d \<Rightarrow> digits10 (10 * acc + int d) cs)"

definition stoi :: "string \<Rightarrow> error + int" where
  "stoi s =
     (let (neg, r) = split_sign (dropWhile isspace (c_str s)) in
      if (case r of [] \<Rightarrow> True | c # _ \<Rightarrow> digit_value c = None) then Inl Invalid_argument
      else
        let v = digits10 0 r; v = (if neg then - v else v) in
        if v < - (2 ^ 31) \<or> 2 ^ 31 - 1 < v then Inl Out_of_range else Inr v)"

section \<open>Sessions (six\_sessions.h)\<close>

subsection \<open>External libraries and the environment\<close>

text \<open>
  The session code calls Argon2, AES (through OpenSSL) and the C library's clock
  formatting. They are parameters of the model:
  \<^item> \<open>argon2id_hash_raw t m p pwd salt n\<close> is the \<open>n\<close>-byte digest, or the message of
    \<^verbatim>\<open>argon2_error_message\<close> when the call fails;
  \<^item> \<open>aes_256_encrypt\<close> and \<open>aes_256_decrypt\<close> are the block cipher under a key;
  \<^item> \<open>strftime_gmtime t\<close> is the text \<^verbatim>\<open>strftime\<close> writes for \<^verbatim>\<open>gmtime(&t)\<close> under the
    format \<^verbatim>\<open>%Y-%m-%d %H:%M:%S\<close>.
  The clock reading \<open>now\<close> is an argument of every operation: an operation is taken to
  run within one second, so that each of its calls of \<^verbatim>\<open>time\<close> and
  \<^verbatim>\<open>system_clock::now\<close> reads the same value. \<^verbatim>\<open>RAND_bytes\<close> draws from the bytes the
  entropy source still has and fails when it has too few.
\<close>

record libs =
  argon2id_hash_raw :: "nat \<Rightarrow> nat \<Rightarrow> nat \<Rightarrow> string \<Rightarrow> byte list \<Rightarrow> nat \<Rightarrow> string + byte list"
  aes_256_encrypt :: block_cipher
  aes_256_decrypt :: block_cipher
  strftime_gmtime :: "int \<Rightarrow> string"

definition RAND_bytes :: "nat \<Rightarrow> byte list \<Rightarrow> (byte list \<times> byte list) option" where
  "RAND_bytes n source =
     (if n \<le> length source then Some (take n source, drop n source) else None)"

subsection \<open>Data\<close>

record Session =
  session_id :: string
  session_id_hash :: string
  user_id :: int
  data :: string
  created_at :: string
  updated_at :: string
  expires_at :: string
  last_activity :: string
  ip_address :: string
  user_agent :: string
  session_salt :: string
  refresh_token :: string
  refresh_token_hash :: string
  refresh_expires_at :: string
  exists :: bool
  is_valid :: bool
  created_ip :: string
  last_activity_ip :: string

text \<open>A default-constructed \<^verbatim>\<open>Session\<close>, which is also what \<^verbatim>\<open>return {};\<close> returns.\<close>

definition Session_default :: Session where
  "Session_default =
     \<lparr>session_id = [], session_id_hash = [], user_id = 0, data = ''{}'',
      created_at = [], updated_at = [], expires_at = [], last_activity = [],
      ip_address = [], user_agent = [], session_salt = [],
      refresh_token = [], refresh_token_hash = [], refresh_expires_at = [],
      exists = False, is_valid = True, created_ip = [], last_activity_ip = []\<rparr>"

text \<open>
  \<^verbatim>\<open>struct SessionAuditLog\<close>; its field \<^verbatim>\<open>id\<close> is never assigned or read and is left out.
\<close>

record SessionAuditLog =
  log_session_id :: string
  log_user_id :: int
  action :: string
  log_ip_address :: string
  log_user_agent :: string
  timestamp :: string
  details :: string

text \<open>The process-wide state of the session code, the database and the entropy source.\<close>

record server_state =
  session_cache :: "string \<rightharpoonup> Session"
  ip_attempts :: rate_table
  log_queue :: "SessionAuditLog list"
  db :: database
  entropy :: "byte list"

subsection \<open>Salts, random identifiers, hashes and timestamps\<close>

definition generate_random_salt :: "nat \<Rightarrow> server_state \<Rightarrow> (error + string) \<times> server_state" where
  "generate_random_salt n st =
     (case RAND_bytes n (entropy st) of
        None \<Rightarrow> (Inl (Runtime_error ''Failed to generate salt''), st)
      | Some (buffer, rest) \<Rightarrow> (Inr (to_hex buffer), st\<lparr>entropy := rest\<rparr>))"

definition get_unique_salt :: "server_state \<Rightarrow> (error + string) \<times> server_state" where
  "get_unique_salt st = generate_random_salt 16 st"

definition generate_secure_random_bytes :: "nat \<Rightarrow> server_state \<Rightarrow> (error + string) \<times> server_state" where
  "generate_secure_random_bytes n st =
     (case RAND_bytes n (entropy st) of
        None \<Rightarrow> (Inl (Runtime_error ''Failed to generate random bytes''), st)
      | Some (buffer, rest) \<Rightarrow> (Inr (to_hex buffer), st\<lparr>entropy := rest\<rparr>))"

definition generate_session_id :: "server_state \<Rightarrow> (error + string) \<times> server_state" where
  "generate_session_id st = generate_secure_random_bytes 32 st"

definition t_cost :: nat where "t_cost = 1"
definition m_cost :: nat where "m_cost = 32768"
definition parallelism :: nat where "parallelism = 1"

text \<open>
  \<^verbatim>\<open>hash_with_salt\<close> decodes the salt with the hexadecimal loop, lets Argon2 fill the
  32-byte vector \<^verbatim>\<open>hash\<close> (zero-initialised), and prints it in hexadecimal.
\<close>

definition hash_with_salt :: "libs \<Rightarrow> string \<Rightarrow> string \<Rightarrow> error + string" where
  "hash_with_salt L dat salt =
     (case from_hex salt of
        None \<Rightarrow> Inl Undefined_behaviour
      | Some salt_bytes \<Rightarrow>
          (case argon2id_hash_raw L t_cost m_cost parallelism dat salt_bytes 32 of
             Inl msg \<Rightarrow> Inl (Runtime_error (''Argon2 hashing failed: '' @ msg))
           | Inr digest \<Rightarrow> Inr (to_hex (take 32 (digest @ replicate 32 0)))))"

definition timestamp_now :: "libs \<Rightarrow> int \<Rightarrow> string" where
  "timestamp_now L now = strftime_gmtime L now"

text \<open>
  \<^verbatim>\<open>timestamp_plus_hours\<close> adds \<^verbatim>\<open>chrono::hours(hours)\<close> to \<^verbatim>\<open>system_clock::now()\<close>,
  which counts nanoseconds in a signed 64-bit integer (read here at the full second
  \<open>now\<close>), and \<^verbatim>\<open>to_time_t\<close> truncates the sum to seconds.
\<close>

definition int64 :: "int \<Rightarrow> int" where
  "int64 x = sint (word_of_int x :: 64 word)"

definition truncated_div :: "int \<Rightarrow> int \<Rightarrow> int" where
  "truncated_div a b = sgn a * sgn b * (\<bar>a\<bar> div \<bar>b\<bar>)"

definition timestamp_plus_hours :: "libs \<Rightarrow> int \<Rightarrow> int \<Rightarrow> string" where
  "timestamp_plus_hours L now hours =
     strftime_gmtime L
       (truncated_div (int64 (int64 (now * 1000000000) + int64 (hours * 3600000000000)))
          1000000000)"

text \<open>\<^verbatim>\<open>days * 24\<close> is a product of two \<^verbatim>\<open>int\<close>s.\<close>

definition timestamp_plus_days :: "libs \<Rightarrow> int \<Rightarrow> int \<Rightarrow> string" where
  "timestamp_plus_days L now days =
     timestamp_plus_hours L now (sint (word_of_int (days * 24) :: 32 word))"

subsection \<open>Audit logger (class SessionAuditLogger)\<close>

definition write_audit_log_to_db :: "SessionAuditLog \<Rightarrow> database \<Rightarrow> database" where
  "write_audit_log_to_db log d =
     six_sql_insert ''session_audit_log''
       [(''session_id'', log_session_id log),
        (''user_id'', to_string (log_user_id log)),
        (''action'', action log),
        (''ip_address'', log_ip_address log),
        (''user_agent'', log_user_agent log),
        (''timestamp'', timestamp log),
        (''details'', details log)]
       d"

definition log_session_event ::
  "libs \<Rightarrow> string \<Rightarrow> int \<Rightarrow> string \<Rightarrow> string \<Rightarrow> string \<Rightarrow> string \<Rightarrow> int \<Rightarrow> server_state \<Rightarrow> server_state" where
  "log_session_event L sid uid act ip ua dets now st =
     (let log = \<lparr>log_session_id = sid, log_user_id = uid, action = act, log_ip_address = ip,
                 log_user_agent = ua, timestamp = strftime_gmtime L now, details = dets\<rparr>
      in st\<lparr>log_queue := log_queue st @ [log], db := write_audit_log_to_db log (db st)\<rparr>)"

definition detect_hijack_attempt :: "libs \<Rightarrow> string \<Rightarrow> string \<Rightarrow> int \<Rightarrow> server_state \<Rightarrow> server_state" where
  "detect_hijack_attempt L sid new_ip now st =
     log_session_event L sid 0 ''hijack_attempt'' new_ip [] ''Session accessed from different IP'' now st"

subsection \<open>create\_session\<close>

text \<open>The row \<^verbatim>\<open>create_session\<close> inserts into \<^verbatim>\<open>sessions\<close>.\<close>

definition session_row :: "Session \<Rightarrow> string \<Rightarrow> row" where
  "session_row s encrypted_data =
     [(''session_id_hash'', session_id_hash s),
      (''session_salt'', session_salt s),
      (''user_id'', to_string (user_id s)),
      (''data_encrypted'', encrypted_data),
      (''created_at'', created_at s),
      (''updated_at'', updated_at s),
      (''expires_at'', expires_at s),
      (''ip_address'', ip_address s),
      (''user_agent'', user_agent s),
      (''created_ip'', ip_address s),
      (''last_activity'', last_activity s),
      (''last_activity_ip'', ip_address s),
      (''refresh_token_hash'', refresh_token_hash s),
      (''refresh_expires_at'', refresh_expires_at s),
      (''is_valid'', ''1'')]"

text \<open>
  The part of \<^verbatim>\<open>create_session\<close> after the random values and the two hashes are there:
  it fills the session, caches it, inserts the row, logs the event and clears the
  address's failed attempts. Nothing in it throws.
\<close>

definition store_new_session ::
  "libs \<Rightarrow> int \<Rightarrow> string \<Rightarrow> string \<Rightarrow> int \<Rightarrow> string \<Rightarrow> string \<Rightarrow> string \<Rightarrow> string \<Rightarrow> string
     \<Rightarrow> server_state \<Rightarrow> Session \<times> server_state" where
  "store_new_session L uid ip ua now sid salt sid_hash rtoken rtoken_hash st =
     (let s = \<lparr>session_id = sid, session_id_hash = sid_hash, user_id = uid, data = ''{}'',
               created_at = timestamp_now L now, updated_at = timestamp_now L now,
               expires_at = timestamp_plus_hours L now 1, last_activity = timestamp_now L now,
               ip_address = ip, user_agent = ua, session_salt = salt,
               refresh_token = rtoken, refresh_token_hash = rtoken_hash,
               refresh_expires_at = timestamp_plus_days L now 30,
               exists = True, is_valid = True, created_ip = ip, last_activity_ip = ip\<rparr>;
          st = st\<lparr>session_cache := (session_cache st)(session_id s \<mapsto> s)\<rparr>;
          encrypted_data = encrypt_session_data (aes_256_encrypt L) (data s);
          st = st\<lparr>db := six_sql_insert ''sessions'' (session_row s encrypted_data) (db st)\<rparr>;
          st = log_session_event L (session_id s) uid ''create'' ip ua ''New session created'' now st;
          st = st\<lparr>ip_attempts := clear_failed_attempts ip (ip_attempts st)\<rparr>
      in (s, st))"

definition create_session ::
  "libs \<Rightarrow> int \<Rightarrow> string \<Rightarrow> string \<Rightarrow> int \<Rightarrow> server_state \<Rightarrow> (error + Session) \<times> server_state" where
  "create_session L uid ip ua now st =
     (let (limited, tbl) = is_rate_limited ip now (ip_attempts st);
          st = st\<lparr>ip_attempts := tbl\<rparr>
      in if limited then (Inl (Runtime_error ''Too many login attempts. Try again later.''), st)
      else case generate_session_id st of
        (Inl e, st) \<Rightarrow> (Inl e, st)
      | (Inr sid, st) \<Rightarrow>
      (case get_unique_salt st of
        (Inl e, st) \<Rightarrow> (Inl e, st)
      | (Inr salt, st) \<Rightarrow>
      (case hash_with_salt L sid salt of
        Inl e \<Rightarrow> (Inl e, st)
      | Inr sid_hash \<Rightarrow>
      (case generate_secure_random_bytes 32 st of
        (Inl e, st) \<Rightarrow> (Inl e, st)
      | (Inr rtoken, st) \<Rightarrow>
      (case get_unique_salt st of
        (Inl e, st) \<Rightarrow> (Inl e, st)
      | (Inr refresh_salt, st) \<Rightarrow>
      (case hash_with_salt L rtoken refresh_salt of
        Inl e \<Rightarrow> (Inl e, st)
      | Inr rtoken_hash \<Rightarrow>
          (case store_new_session L uid ip ua now sid salt sid_hash rtoken rtoken_hash st of
             (s, st) \<Rightarrow> (Inr s, st))))))))"

subsection \<open>load\_session\<close>

text \<open>
  The session \<^verbatim>\<open>load_session\<close> builds from a row of \<^verbatim>\<open>sessions\<close>. \<^verbatim>\<open>stoi\<close> may throw;
  an exception of the decryption is caught and the payload replaced by \<^verbatim>\<open>{}\<close>, but the
  out-of-range write of its decoding loop is not an exception.
\<close>

definition session_of_row ::
  "libs \<Rightarrow> string \<Rightarrow> (string \<Rightarrow> string) \<Rightarrow> error + Session" where
  "session_of_row L sid row =
     (case stoi (row ''user_id'') of
        Inl e \<Rightarrow> Inl e
      | Inr uid \<Rightarrow>
          (case (case decrypt_session_data (aes_256_decrypt L) (row ''data_encrypted'') of
                   Inl e \<Rightarrow> if e = Undefined_behaviour then Inl e else Inr ''{}''
                 | Inr payload \<Rightarrow> Inr payload) of
             Inl e \<Rightarrow> Inl e
           | Inr payload \<Rightarrow>
               Inr \<lparr>session_id = sid, session_id_hash = row ''session_id_hash'', user_id = uid,
                    data = payload,
                    created_at = row ''created_at'', updated_at = row ''updated_at'',
                    expires_at = row ''expires_at'', last_activity = row ''last_activity'',
                    ip_address = row ''ip_address'', user_agent = row ''user_agent'',
                    session_salt = row ''session_salt'',
                    refresh_token = [], refresh_token_hash = row ''refresh_token_hash'',
                    refresh_expires_at = row ''refresh_expires_at'',
                    exists = True, is_valid = (row ''is_valid'' = ''1''),
                    created_ip = row ''created_ip'', last_activity_ip = row ''last_activity_ip''\<rparr>))"

text \<open>
  \<^verbatim>\<open>now > s.expires_at\<close> compares two \<^verbatim>\<open>std::string\<close>s: lexicographically, by unsigned
  character value, which is the order of \<open>string\<close> here.
\<close>

definition load_session ::
  "libs \<Rightarrow> string \<Rightarrow> string \<Rightarrow> string \<Rightarrow> int \<Rightarrow> server_state \<Rightarrow> (error + Session) \<times> server_state" where
  "load_session L sid current_ip current_user_agent now st =
     (case session_cache st sid of
        Some s \<Rightarrow>
          if ip_address s \<noteq> current_ip
          then (Inr Session_default, detect_hijack_attempt L sid current_ip now st)
          else if user_agent s \<noteq> current_user_agent
          then (Inr Session_default, detect_hijack_attempt L sid current_ip now st)
          else if timestamp_now L now > expires_at s
          then (Inr Session_default, st\<lparr>session_cache := (session_cache st)(sid := None)\<rparr>)
          else (Inr s, st)
      | None \<Rightarrow>
          (case get_unique_salt st of
             (Inl e, st) \<Rightarrow> (Inl e, st)
           | (Inr salt, st) \<Rightarrow>
          (case hash_with_salt L sid salt of
             Inl e \<Rightarrow> (Inl e, st)
           | Inr session_hash \<Rightarrow>
          (case six_sql_find_by ''sessions'' ''session_id_hash'' session_hash (db st) of
             (row, d) \<Rightarrow>
               let st = st\<lparr>db := d\<rparr> in
               if \<not> row_found d row then (Inr Session_default, st)
               else
                 (case session_of_row L sid (row_read d row) of
                    Inl e \<Rightarrow> (Inl e, st)
                  | Inr s \<Rightarrow>
                      if ip_address s \<noteq> current_ip \<or> user_agent s \<noteq> current_user_agent
                      then (Inr Session_default, detect_hijack_attempt L sid current_ip now st)
                      else if timestamp_now L now > expires_at s
                      then (Inr Session_default, st)
                      else
                        let s = s\<lparr>last_activity := timestamp_now L now,
                                   last_activity_ip := current_ip\<rparr>;
                            st = st\<lparr>session_cache := (session_cache st)(sid \<mapsto> s)\<rparr>;
                            st = log_session_event L sid (user_id s) ''load'' current_ip
                                   current_user_agent [] now st
                        in (Inr s, st))))))"

subsection \<open>refresh\_session, save\_session, destroy\_session, revoke\_all\_user\_sessions\<close>

definition refresh_session ::
  "libs \<Rightarrow> string \<Rightarrow> string \<Rightarrow> string \<Rightarrow> string \<Rightarrow> int \<Rightarrow> server_state
     \<Rightarrow> (error + Session) \<times> server_state" where
  "refresh_session L sid rtoken current_ip current_user_agent now st =
     (case load_session L sid current_ip current_user_agent now st of
        (Inl e, st) \<Rightarrow> (Inl e, st)
      | (Inr s, st) \<Rightarrow>
          if \<not> exists s
          then (Inl (Runtime_error ''Invalid session''),
                st\<lparr>ip_attempts := record_failed_attempt current_ip now (ip_attempts st)\<rparr>)
          else
          (case get_unique_salt st of
             (Inl e, st) \<Rightarrow> (Inl e, st)
           | (Inr refresh_salt, st) \<Rightarrow>
          (case hash_with_salt L rtoken refresh_salt of
             Inl e \<Rightarrow> (Inl e, st)
           | Inr refresh_hash \<Rightarrow>
               if refresh_hash \<noteq> refresh_token_hash s
               then (Inl (Runtime_error ''Invalid refresh token''),
                     st\<lparr>ip_attempts := record_failed_attempt current_ip now (ip_attempts st)\<rparr>)
               else if timestamp_now L now > refresh_expires_at s
               then (Inl (Runtime_error ''Refresh token expired''), st)
               else
                 (case create_session L (user_id s) current_ip current_user_agent now st of
                    (Inl e, st) \<Rightarrow> (Inl e, st)
                  | (Inr new_session, st) \<Rightarrow>
                      (Inr new_session,
                       log_session_event L sid (user_id s) ''refresh'' current_ip
                         current_user_agent ''Session refreshed with new ID'' now st)))))"

definition save_session :: "libs \<Rightarrow> Session \<Rightarrow> int \<Rightarrow> server_state \<Rightarrow> server_state" where
  "save_session L s now st =
     (let st = st\<lparr>session_cache := (session_cache st)(session_id s \<mapsto> s)\<rparr>;
          encrypted_data = encrypt_session_data (aes_256_encrypt L) (data s);
          (row, d) = six_sql_find_by ''sessions'' ''session_id_hash'' (session_id_hash s) (db st)
      in if \<not> row_found d row then st\<lparr>db := d\<rparr>
         else
           let d = row_write row ''user_id'' (to_string (user_id s)) d;
               d = row_write row ''data_encrypted'' encrypted_data d;
               d = row_write row ''updated_at'' (timestamp_now L now) d;
               d = row_write row ''last_activity'' (timestamp_now L now) d;
               d = row_write row ''is_valid'' (if is_valid s then ''1'' else ''0'') d
           in st\<lparr>db := six_sql_commit d\<rparr>)"

definition destroy_session :: "libs \<Rightarrow> string \<Rightarrow> int \<Rightarrow> server_state \<Rightarrow> server_state" where
  "destroy_session L sid now st =
     (let s = (case session_cache st sid of Some cached \<Rightarrow> cached | None \<Rightarrow> Session_default);
          st = st\<lparr>session_cache := (session_cache st)(sid := None)\<rparr>;
          (row, d) = six_sql_find_by ''sessions'' ''session_id_hash'' (session_id_hash s) (db st)
      in if row_found d row
         then
           let d = row_write row ''is_valid'' ''0'' d;
               st = st\<lparr>db := six_sql_commit d\<rparr>
           in log_session_event L sid (user_id s) ''logout'' [] []
                ''Session destroyed - user logged out'' now st
         else st\<lparr>db := d\<rparr>)"

definition revoke_all_user_sessions :: "libs \<Rightarrow> int \<Rightarrow> string \<Rightarrow> int \<Rightarrow> server_state \<Rightarrow> server_state" where
  "revoke_all_user_sessions L uid reason now st =
     (let st = st\<lparr>session_cache :=
                   (\<lambda>sid. case session_cache st sid of
                            None \<Rightarrow> None
                          | Some s \<Rightarrow> if user_id s = uid then None else Some s)\<rparr>;
          st = st\<lparr>db := six_sql_exec
                         (UPDATE_sessions_SET_is_valid_0_WHERE_user_id (to_string uid)) (db st)\<rparr>
      in log_session_event L [] uid ''revoke_all'' [] [] (''All sessions revoked: '' @ reason) now st)"

section \<open>A well-formedness condition of the sessions table\<close>

text \<open>
  Every digest that \<^verbatim>\<open>hash_with_salt\<close> prints has 64 hexadecimal characters, so no row that
  \<^verbatim>\<open>create_session\<close> inserts has an empty \<^verbatim>\<open>session_id_hash\<close>, and no later update
  assigns that column. \<open>sessions_keyed\<close> states it for a database: no stored row and no
  staged row of \<^verbatim>\<open>sessions\<close> has an empty \<^verbatim>\<open>session_id_hash\<close>, the values read as the C
  strings that SQLite is given and returns, and no row is staged under the empty digest.
\<close>

definition keyed :: "row \<Rightarrow> bool" where
  "keyed r \<longleftrightarrow> (''session_id_hash'', []) \<notin> set (bound_values r)"

definition sessions_keyed :: "database \<Rightarrow> bool" where
  "sessions_keyed d \<longleftrightarrow>
     list_all keyed (tables d ''sessions'')
     \<and> list_all (\<lambda>p. table_name (snd p) = ''sessions'' \<longrightarrow> keyed (cols (snd p)))
         (pending_updates d)
     \<and> map_of (pending_updates d) (pending_key ''sessions'' ''session_id_hash'' []) = None"

section \<open>Digests, salts and the rows of create\_session\<close>

text \<open>
  The assumption under which a lookup with a fresh salt is said to find nothing: digests
  made under different salts differ. It is stated for the salts the program makes, 16
  random bytes printed in hexadecimal, and for any two identifiers.
\<close>

definition salt_sensitive :: "libs \<Rightarrow> bool" where
  "salt_sensitive L \<longleftrightarrow>
     (\<forall>d d' bs bs' h.
        length bs = 16 \<and> length bs' = 16
        \<and> hash_with_salt L d (to_hex bs) = Inr h \<and> hash_with_salt L d' (to_hex bs') = Inr h
        \<longrightarrow> bs = bs')"

text \<open>
  A row as \<^verbatim>\<open>create_session\<close> writes it: its \<^verbatim>\<open>session_salt\<close> is 16 bytes in hexadecimal,
  and its \<^verbatim>\<open>session_id_hash\<close> is the digest of some identifier under that salt.
\<close>

definition created_row :: "libs \<Rightarrow> row \<Rightarrow> bool" where
  "created_row L r \<longleftrightarrow>
     (\<exists>d bs. length bs = 16 \<and> row_get r ''session_salt'' = to_hex bs
        \<and> hash_with_salt L d (to_hex bs) = Inr (row_get r ''session_id_hash''))"

section \<open>Authorization guards (six\_login.h)\<close>

text \<open>
  The guards read the process-wide \<^verbatim>\<open>current_user\<close> and write through the pointer
  \<^verbatim>\<open>g_current_response\<close>, which may be null (\<open>None\<close>).
\<close>

record http_response =
  status :: int
  contentType :: string
  body :: string
  location :: string
  headers :: "string \<rightharpoonup> string"

record CurrentUser =
  is_authenticated :: bool
  cu_id :: int
  cu_data :: "string \<rightharpoonup> string"
  cu_session_id :: string
  cu_ip_address :: string
  cu_user_agent :: string
  cu_refresh_token :: string

text \<open>\<^verbatim>\<open>CurrentUser::get\<close>: the profile field, or the empty string when it is missing.\<close>

definition get :: "CurrentUser \<Rightarrow> string \<Rightarrow> string" where
  "get cu key = (case cu_data cu key of Some v \<Rightarrow> v | None \<Rightarrow> [])"

definition unauthorized :: "http_response \<Rightarrow> http_response" where
  \<open>unauthorized r =
     r\<lparr>status := 401, body := ''{"error": "Unauthorized"}'',
       headers := (headers r)(''Content-Type'' \<mapsto> ''application/json'')\<rparr>\<close>

definition forbidden :: "http_response \<Rightarrow> http_response" where
  \<open>forbidden r =
     r\<lparr>status := 403, body := ''{"error": "Forbidden"}'',
       headers := (headers r)(''Content-Type'' \<mapsto> ''application/json'')\<rparr>\<close>

definition require_auth :: "CurrentUser \<Rightarrow> http_response option \<Rightarrow> bool \<times> http_response option" where
  "require_auth current_user g_current_response =
     (if \<not> is_authenticated current_user
      then (False, map_option unauthorized g_current_response)
      else (True, g_current_response))"

definition require_admin :: "CurrentUser \<Rightarrow> http_response option \<Rightarrow> bool \<times> http_response option" where
  "require_admin current_user g_current_response =
     (if \<not> is_authenticated current_user
      then (False, map_option unauthorized g_current_response)
      else if get current_user ''role'' \<noteq> ''admin''
      then (False, map_option forbidden g_current_response)
      else (True, g_current_response))"

section \<open>Concrete instances for the worked examples\<close>

text \<open>
  A stand-in block cipher for the examples: every byte of the block is combined with the
  XOR of the key bytes. It keeps the block length and is its own inverse.
\<close>

definition xor_cipher :: block_cipher where
  "xor_cipher key blk = map (\<lambda>b. b XOR fold (XOR) key 0) blk"

text \<open>Users and a response for the examples of the guards.\<close>

definition anonymous_user :: CurrentUser where
  "anonymous_user =
     \<lparr>is_authenticated = False, cu_id = 0, cu_data = Map.empty, cu_session_id = [],
      cu_ip_address = [], cu_user_agent = [], cu_refresh_token = []\<rparr>"

definition signed_in_user :: "string \<Rightarrow> CurrentUser" where
  "signed_in_user role =
     \<lparr>is_authenticated = True, cu_id = 42, cu_data = [''role'' \<mapsto> role],
      cu_session_id = [], cu_ip_address = ''10.0.0.1'', cu_user_agent = ''A'',
      cu_refresh_token = []\<rparr>"

definition blank_response :: http_response where
  "blank_response =
     \<lparr>status = 200, contentType = ''text/html'', body = [], location = [],
      headers = Map.empty\<rparr>"

text \<open>
  Stand-ins for the libraries. The digest of \<open>argon2_stub\<close> is made of the salt followed by
  the data, so it depends on both; like Argon2 it refuses a salt shorter than 8 bytes.
  \<open>utc_timestamp\<close> formats seconds since the epoch as \<^verbatim>\<open>%Y-%m-%d %H:%M:%S\<close> in UTC.
\<close>

definition argon2_stub :: "nat \<Rightarrow> nat \<Rightarrow> nat \<Rightarrow> string \<Rightarrow> byte list \<Rightarrow> nat \<Rightarrow> string + byte list" where
  "argon2_stub t m p pwd salt n =
     (if length salt < 8 then Inl ''Salt is too short''
      else Inr (take n (salt @ bytes_of_string pwd @ replicate n 0)))"

definition pad2 :: "int \<Rightarrow> string" where
  "pad2 n = [digit_char (nat n div 10), digit_char (nat n)]"

definition utc_timestamp :: "int \<Rightarrow> string" where
  "utc_timestamp t =
     (let secs = t mod 86400;
          z = t div 86400 + 719468;
          era = z div 146097;
          doe = z mod 146097;
          yoe = (doe - doe div 1460 + doe div 36524 - doe div 146096) div 365;
          doy = doe - (365 * yoe + yoe div 4 - yoe div 100);
          mp = (5 * doy + 2) div 153;
          d = doy - (153 * mp + 2) div 5 + 1;
          m = (if mp < 10 then mp + 3 else mp - 9);
          y = yoe + era * 400 + (if m \<le> 2 then 1 else 0)
      in to_string y @ ''-'' @ pad2 m @ ''-'' @ pad2 d @ '' '' @ pad2 (secs div 3600) @ '':''
         @ pad2 (secs mod 3600 div 60) @ '':'' @ pad2 (secs mod 60))"

definition demo_libs :: libs where
  "demo_libs =
     \<lparr>argon2id_hash_raw = argon2_stub, aes_256_encrypt = xor_cipher,
      aes_256_decrypt = xor_cipher, strftime_gmtime = utc_timestamp\<rparr>"

text \<open>
  A server holding the session that \<^verbatim>\<open>create_session(42, "10.0.0.1", "A")\<close> made at
  2023-11-14 22:13:20 UTC (1700000000): the session is cached, its row and the audit row of
  its creation are stored, nothing is staged, and the entropy source has 64 bytes left.
\<close>

definition demo_sid :: string where
  "demo_sid = ''000102030405060708090a0b0c0d0e0f101112131415161718191a1b1c1d1e1f''"

definition demo_session :: Session where
  "demo_session =
     \<lparr>session_id = demo_sid,
      session_id_hash = ''202122232425262728292a2b2c2d2e2f30303031303230333034303530363037'',
      user_id = 42, data = ''{}'', created_at = ''2023-11-14 22:13:20'',
      updated_at = ''2023-11-14 22:13:20'', expires_at = ''2023-11-14 23:13:20'',
      last_activity = ''2023-11-14 22:13:20'', ip_address = ''10.0.0.1'', user_agent = ''A'',
      session_salt = ''202122232425262728292a2b2c2d2e2f'',
      refresh_token = ''303132333435363738393a3b3c3d3e3f404142434445464748494a4b4c4d4e4f'',
      refresh_token_hash = ''505152535455565758595a5b5c5d5e5f33303331333233333334333533363337'',
      refresh_expires_at = ''2023-12-14 22:13:20'', exists = True, is_valid = True,
      created_ip = ''10.0.0.1'', last_activity_ip = ''10.0.0.1''\<rparr>"

definition demo_database :: database where
  "demo_database =
     \<lparr>tables = (\<lambda>t. if t = ''sessions''
                     then [session_row demo_session ''7b7c0c0d0a0b08090607040502030001'']
                     else if t = ''session_audit_log''
                     then [[(''session_id'', demo_sid), (''user_id'', ''42''),
                            (''action'', ''create''), (''ip_address'', ''10.0.0.1''),
                            (''user_agent'', ''A''), (''timestamp'', ''2023-11-14 22:13:20''),
                            (''details'', ''New session created'')]]
                     else []),
      available = True, pending_updates = []\<rparr>"

definition demo_server :: server_state where
  "demo_server =
     \<lparr>session_cache = [demo_sid \<mapsto> demo_session],
      ip_attempts = [''10.0.0.1'' \<mapsto> \<lparr>attempts = 0, reset_time = 1700000060\<rparr>],
      log_queue = [\<lparr>log_session_id = demo_sid, log_user_id = 42, action = ''create'',
                    log_ip_address = ''10.0.0.1'', log_user_agent = ''A'',
                    timestamp = ''2023-11-14 22:13:20'', details = ''New session created''\<rparr>],
      db = demo_database,
      entropy = replicate 64 7\<rparr>"

text \<open>The same server after a restart: the row is stored, the cache is empty.\<close>

definition restarted_server :: server_state where
  "restarted_server = demo_server\<lparr>session_cache := Map.empty\<rparr>"

text \<open>
  The restarted server at a moment when the entropy source yields the 16 bytes that were
  the salt of the stored session.
\<close>

definition replayed_server :: server_state where
  "replayed_server = restarted_server\<lparr>entropy := map word_of_nat [32..<48]\<rparr>"

text \<open>
  The server of the example after five failed attempts from the session's address within
  the current window, at a moment when the entropy source yields the bytes that were the
  salt of the stored refresh-token digest; and the same server holding a session whose
  refresh token expires before the session does.
\<close>

definition throttled_server :: server_state where
  "throttled_server =
     demo_server\<lparr>ip_attempts := [''10.0.0.1'' \<mapsto> \<lparr>attempts = 5, reset_time = 1700000130\<rparr>],
                 entropy := map word_of_nat [80..<144]\<rparr>"

definition early_refresh_server :: server_state where
  "early_refresh_server =
     throttled_server\<lparr>session_cache :=
       [demo_sid \<mapsto> demo_session\<lparr>refresh_expires_at := ''2023-11-14 22:14:00''\<rparr>]\<rparr>"

text \<open>
  The server of the example when the address is not throttled and the entropy source yields
  the stored salt again, followed by enough bytes for a new session.
\<close>

definition refreshable_server :: server_state where
  "refreshable_server =
     demo_server\<lparr>ip_attempts := Map.empty, entropy := map word_of_nat [80..<208]\<rparr>"

text \<open>A server that has just started: nothing cached, an empty database, 96 bytes of entropy.\<close>

definition fresh_server :: server_state where
  "fresh_server =
     \<lparr>session_cache = Map.empty, ip_attempts = Map.empty, log_queue = [],
      db = \<lparr>tables = (\<lambda>t. []), available = True, pending_updates = []\<rparr>,
      entropy = map word_of_nat [0..<96]\<rparr>"

section \<open>Hexadecimal text decodes to the bytes it encodes\<close>

lemma char_of_byte_inverse [simp]: "char_of_byte (byte_of_char c) = c"
  by (simp add: char_of_byte_def byte_of_char_def unat_of_nat)

lemma string_of_bytes_inverse [simp]: "string_of_bytes (bytes_of_string s) = s"
  by (simp add: string_of_bytes_def bytes_of_string_def map_idI)

lemma length_bytes_of_string [simp]: "length (bytes_of_string s) = length s"
  by (simp add: bytes_of_string_def)

lemma nibble_cases:
  "n < 16 \<Longrightarrow> n \<in> {0, 1, 2, 3, 4, 5, 6, 7, 8, 9, 10, 11, 12, 13, 14, 15 :: nat}"
  by (simp only: insert_iff empty_iff) arith

lemma hex_value_digit: "n < 16 \<Longrightarrow> hex_value (hex_digit n) = Some n"
  by (drule nibble_cases) (auto simp: hex_value_def hex_digit_def)

lemma hex_digit_plain:
  "n < 16 \<Longrightarrow> \<not> isspace (hex_digit n) \<and> hex_digit n \<noteq> CHR 0x00
     \<and> hex_digit n \<noteq> CHR ''-'' \<and> hex_digit n \<noteq> CHR ''+''"
  by (drule nibble_cases) (auto simp: isspace_def hex_digit_def)

lemma strtol16_hex_pair:
  assumes "a < 16" "b < 16"
  shows "strtol16 [hex_digit a, hex_digit b] = int (16 * a + b)"
proof -
  have "clamp_long (16 * int a + int b) = 16 * int a + int b"
    using assms by (simp add: clamp_long_def)
  then show ?thesis
    using hex_digit_plain [OF assms(1)] hex_digit_plain [OF assms(2)]
    by (simp add: strtol16_def c_str_def split_sign_def skip_0x_def
        hex_value_digit [OF assms(1)] hex_value_digit [OF assms(2)])
qed

lemma strtol16_hex_byte: "word_of_int (strtol16 (hex_byte b)) = b"
proof -
  have "strtol16 (hex_byte b) = int (16 * (unat b div 16) + unat b mod 16)"
    unfolding hex_byte_def
  proof (rule strtol16_hex_pair)
    have "unat b < 256" using unsigned_less [of b, where ?'a = nat] by simp
    then show "unat b div 16 < 16" by simp
  qed simp
  also have "\<dots> = int (unat b)" by simp
  finally show ?thesis by simp
qed

lemma length_to_hex: "length (to_hex bs) = 2 * length bs"
  by (induction bs) (simp_all add: to_hex_def hex_byte_def)

lemma substr2_to_hex: "substr2 (to_hex bs) = map hex_byte bs"
  by (induction bs) (simp_all add: to_hex_def hex_byte_def)

lemma from_hex_to_hex: "from_hex (to_hex bs) = Some bs"
  by (simp add: from_hex_def length_to_hex substr2_to_hex strtol16_hex_byte map_idI)

section \<open>CBC decryption undoes CBC encryption\<close>

lemma xor_block_cancel: "length a = length b \<Longrightarrow> xor_block (xor_block a b) b = a"
  unfolding xor_block_def
  by (induction a b rule: list_induct2) (simp_all add: xor.assoc)

lemma length_xor_block [simp]: "length (xor_block a b) = min (length a) (length b)"
  by (simp add: xor_block_def)

lemma blocks16_short [simp]: "length bs < 16 \<Longrightarrow> blocks16 bs = []"
  by (simp add: blocks16.simps)

lemma blocks16_append [simp]: "length b = 16 \<Longrightarrow> blocks16 (b @ r) = b # blocks16 r"
  by (subst blocks16.simps) simp

lemma blocks16_concat: "\<forall>b\<in>set bs. length b = 16 \<Longrightarrow> blocks16 (concat bs) = bs"
  by (induction bs) simp_all

lemma blocks16_length: "b \<in> set (blocks16 xs) \<Longrightarrow> length b = 16"
proof (induction xs rule: blocks16.induct)
  case (1 bs)
  show ?case
  proof (cases "length bs < 16")
    case True
    with "1.prems" show ?thesis by simp
  next
    case False
    with "1.prems" have "b = take 16 bs \<or> b \<in> set (blocks16 (drop 16 bs))"
      by (subst (asm) blocks16.simps) auto
    with False "1.IH" show ?thesis by auto
  qed
qed

lemma concat_blocks16: "concat (blocks16 xs) = take (16 * (length xs div 16)) xs"
proof (induction xs rule: blocks16.induct)
  case (1 bs)
  show ?case
  proof (cases "length bs < 16")
    case True
    then show ?thesis by simp
  next
    case False
    then have d: "length bs div 16 = Suc ((length bs - 16) div 16)"
      by (simp add: le_div_geq)
    have "concat (blocks16 bs) = take 16 bs @ concat (blocks16 (drop 16 bs))"
      using False by (subst blocks16.simps) simp
    also have "\<dots> = take 16 bs @ take (16 * ((length bs - 16) div 16)) (drop 16 bs)"
      using "1.IH" [OF False] by simp
    also have "\<dots> = take (16 + 16 * ((length bs - 16) div 16)) bs"
      by (simp add: take_add)
    finally show ?thesis by (simp add: d)
  qed
qed

lemma cbc_lengths:
  assumes enc: "\<And>b. length b = 16 \<Longrightarrow> length (enc b) = 16"
  shows "length prev = 16 \<Longrightarrow> \<forall>p\<in>set ps. length p = 16 \<Longrightarrow>
         \<forall>c\<in>set (cbc_encrypt enc prev ps). length c = 16"
proof (induction ps arbitrary: prev)
  case Nil
  then show ?case by simp
next
  case (Cons p ps)
  have l: "length (enc (xor_block p prev)) = 16"
    using Cons.prems by (simp add: enc)
  from Cons.IH [OF l] Cons.prems l show ?case by (simp add: Let_def)
qed

lemma cbc_roundtrip:
  assumes enc: "\<And>b. length b = 16 \<Longrightarrow> length (enc b) = 16 \<and> dec (enc b) = b"
  shows "length prev = 16 \<Longrightarrow> \<forall>p\<in>set ps. length p = 16 \<Longrightarrow>
         cbc_decrypt dec prev (cbc_encrypt enc prev ps) = ps"
proof (induction ps arbitrary: prev)
  case Nil
  then show ?case by simp
next
  case (Cons p ps)
  have x: "length (xor_block p prev) = 16"
    using Cons.prems by simp
  have l: "length (enc (xor_block p prev)) = 16"
    using enc [OF x] by simp
  have c: "xor_block (dec (enc (xor_block p prev))) prev = p"
    using enc [OF x] Cons.prems by (simp add: xor_block_cancel)
  from Cons.IH [OF l] Cons.prems c show ?case by (simp add: Let_def)
qed

lemma cbc_encrypt_append:
  "cbc_encrypt enc prev (xs @ ys) =
     cbc_encrypt enc prev xs @ cbc_encrypt enc (last (prev # cbc_encrypt enc prev xs)) ys"
  by (induction xs arbitrary: prev) (simp_all add: Let_def)

lemma length_concat_blocks:
  "\<forall>b\<in>set bs. length b = 16 \<Longrightarrow> length (concat bs) = 16 * length bs"
  by (induction bs) simp_all

lemma length_MASTER_IV [simp]: "length MASTER_IV = 16"
  by (simp add: MASTER_IV_def)

lemma int_of_size_t_small: "n < 2 ^ 31 \<Longrightarrow> int_of_size_t n = int n"
  by (simp add: int_of_size_t_def signed_of_nat signed_take_bit_int_eq_self)

lemma int_add_small: "0 \<le> a \<Longrightarrow> 0 \<le> b \<Longrightarrow> a + b < 2 ^ 31 \<Longrightarrow> int_add a b = a + b"
  by (simp only: int_add_def signed_of_int) (simp add: signed_take_bit_int_eq_self)

lemma length_cbc_encrypt [simp]: "length (cbc_encrypt enc prev ps) = length ps"
  by (induction ps arbitrary: prev) (simp_all add: Let_def)

lemma length_blocks16 [simp]: "length (blocks16 xs) = length xs div 16"
proof (induction xs rule: blocks16.induct)
  case (1 bs)
  show ?case
  proof (cases "length bs < 16")
    case True
    then show ?thesis by (subst blocks16.simps) simp
  next
    case False
    then have "length bs div 16 = Suc ((length bs - 16) div 16)"
      by (simp add: le_div_geq)
    with "1.IH" [OF False] False show ?thesis by (subst blocks16.simps) simp
  qed
qed

text \<open>
  The calls of \<^verbatim>\<open>encrypt_session_data\<close> and \<^verbatim>\<open>decrypt_session_data\<close> in sequence, on a
  payload whose padded length fits the \<^verbatim>\<open>int\<close> length parameters and counters.
\<close>

lemma evp_roundtrip:
  assumes pair: "block_cipher_pair E D" and iv: "length iv = 16"
    and small: "length bs < 2 ^ 31 - 16"
  obtains out1 ctx ct p1 ctx' p2 where
    "EVP_EncryptUpdate E (EVP_EncryptInit_ex key iv) bs (int_of_size_t (length bs)) = (out1, ctx)"
    "int_add (int (length out1)) (int (length (EVP_EncryptFinal_ex E ctx))) = int (length ct)"
    "out1 @ EVP_EncryptFinal_ex E ctx = ct"
    "EVP_DecryptUpdate D (EVP_DecryptInit_ex key iv) ct (int_of_size_t (length ct)) = (p1, ctx')"
    "EVP_DecryptFinal_ex ctx' = Some p2"
    "int_add (int (length p1)) (int (length p2)) = int (length bs)"
    "p1 @ p2 = bs"
proof -
  define n where "n = length bs div 16"
  define full where "full = blocks16 (take (16 * n) bs)"
  define rest where "rest = drop (16 * n) bs"
  define k where "k = 16 - length rest"
  define padded where "padded = rest @ replicate k (word_of_nat k :: byte)"
  define enc where "enc = E key"
  define dec where "dec = D key"
  define cs where "cs = cbc_encrypt enc iv full"
  define CS where "CS = cbc_encrypt enc iv (full @ [padded])"
  have encdec: "\<And>b. length b = 16 \<Longrightarrow> length (enc b) = 16 \<and> dec (enc b) = b"
    using pair by (simp add: block_cipher_pair_def enc_def dec_def)
  have enclen: "\<And>b. length b = 16 \<Longrightarrow> length (enc b) = 16"
    using encdec by simp
  have rest_len: "length rest = length bs mod 16"
    by (simp add: rest_def n_def minus_mult_div_eq_mod)
  then have k: "1 \<le> k" "k \<le> 16" "length rest = 16 - k"
    by (simp_all add: k_def)
  have padded_len: "length padded = 16"
    using k by (simp add: padded_def)
  have full_len: "\<forall>b\<in>set full. length b = 16"
    by (simp add: full_def blocks16_length)
  have full_count: "length full = n"
    by (simp add: full_def n_def min_def)
  have blocks: "\<forall>b\<in>set (full @ [padded]). length b = 16"
    using full_len padded_len by simp
  have CS_len: "\<forall>c\<in>set CS. length c = 16"
    unfolding CS_def by (rule cbc_lengths [OF enclen iv blocks])
  have CS_eq: "CS = cs @ [enc (xor_block padded (last (iv # cs)))]"
    by (simp add: CS_def cs_def cbc_encrypt_append Let_def)
  have CS_count: "length CS = n + 1"
    by (simp add: CS_def full_count)
  have n_small: "16 * n + 16 < (2 :: nat) ^ 31"
    using small by (simp add: n_def)
  have bs_small: "length bs < 2 ^ 31"
    using small by simp
  have enc_update: "EVP_EncryptUpdate E (EVP_EncryptInit_ex key iv) bs (int_of_size_t (length bs)) =
      (concat cs, \<lparr>ctx_key = key, ctx_iv = last (iv # cs), ctx_buf = rest, ctx_final = None\<rparr>)"
  proof (cases "bs = []")
    case True
    then have "cs = []" "rest = []"
      by (simp_all add: cs_def full_def rest_def n_def blocks16.simps)
    with True show ?thesis
      by (simp add: EVP_EncryptUpdate_def EVP_EncryptInit_ex_def int_of_size_t_small)
  next
    case False
    then show ?thesis
      by (simp add: EVP_EncryptUpdate_def EVP_EncryptInit_ex_def Let_def cs_def full_def rest_def
          n_def enc_def int_of_size_t_small [OF bs_small])
  qed
  have enc_final: "EVP_EncryptFinal_ex E
      \<lparr>ctx_key = key, ctx_iv = last (iv # cs), ctx_buf = rest, ctx_final = None\<rparr>
      = enc (xor_block padded (last (iv # cs)))"
    by (simp add: EVP_EncryptFinal_ex_def Let_def padded_def k_def enc_def)
  have ct: "concat cs @ enc (xor_block padded (last (iv # cs))) = concat CS"
    by (simp add: CS_eq)
  have ct_len: "length (concat CS) = 16 * length CS"
    by (rule length_concat_blocks [OF CS_len])
  have ct_small: "length (concat CS) < 2 ^ 31"
    using n_small by (simp add: ct_len CS_count)
  have out_lens: "int_add (int (length (concat cs)))
        (int (length (enc (xor_block padded (last (iv # cs)))))) = int (length (concat CS))"
  proof -
    have "int (length (concat cs)) + int (length (enc (xor_block padded (last (iv # cs)))))
        = int (length (concat CS))"
      by (simp add: ct [symmetric])
    moreover have "int (length (concat CS)) < 2 ^ 31"
      using ct_small by (metis of_nat_less_iff of_nat_numeral of_nat_power)
    ultimately show ?thesis
      by (simp add: int_add_small)
  qed
  have CS_nonempty: "CS \<noteq> []"
    by (simp add: CS_eq)
  then have ct_nonempty: "concat CS \<noteq> []"
    using ct_len by (metis length_0_conv length_greater_0_conv mult_is_0 zero_neq_numeral)
  have plain: "cbc_decrypt dec iv CS = full @ [padded]"
    unfolding CS_def by (rule cbc_roundtrip [OF encdec iv blocks])
  have dec_update: "EVP_DecryptUpdate D (EVP_DecryptInit_ex key iv) (concat CS)
        (int_of_size_t (length (concat CS))) =
      (concat full, \<lparr>ctx_key = key, ctx_iv = last (iv # CS), ctx_buf = [],
                     ctx_final = Some padded\<rparr>)"
    using ct_nonempty CS_nonempty
    by (simp add: EVP_DecryptUpdate_def EVP_DecryptInit_ex_def Let_def ct_len
        int_of_size_t_small [OF ct_small, unfolded ct_len]
        blocks16_concat [OF CS_len] plain [unfolded dec_def])
  have last_padded: "last padded = word_of_nat k"
    using k by (simp add: padded_def)
  have unat_k: "unat (word_of_nat k :: byte) = k"
    using k by (simp add: unat_of_nat)
  have dec_final: "EVP_DecryptFinal_ex
      \<lparr>ctx_key = key, ctx_iv = last (iv # CS), ctx_buf = [], ctx_final = Some padded\<rparr>
      = Some rest"
    using k padded_len
    by (simp add: EVP_DecryptFinal_ex_def Let_def last_padded unat_k)
       (simp add: padded_def list_all_iff)
  have full_eq: "concat full = take (16 * n) bs"
    by (simp add: full_def concat_blocks16 n_def min_def)
  have whole: "take (16 * n) bs @ rest = bs"
    by (simp add: rest_def)
  have in_lens: "int_add (int (length (take (16 * n) bs))) (int (length rest)) = int (length bs)"
  proof -
    have "int (length (take (16 * n) bs)) + int (length rest) = int (length bs)"
      by (metis whole length_append of_nat_add)
    moreover have "int (length bs) < 2 ^ 31"
      using bs_small by (metis of_nat_less_iff of_nat_numeral of_nat_power)
    ultimately show ?thesis
      by (simp add: int_add_small)
  qed
  have f2: "int_add (int (length (concat cs)))
      (int (length (EVP_EncryptFinal_ex E
         \<lparr>ctx_key = key, ctx_iv = last (iv # cs), ctx_buf = rest, ctx_final = None\<rparr>)))
      = int (length (concat CS))"
    by (simp only: enc_final out_lens)
  have f3: "concat cs @ EVP_EncryptFinal_ex E
      \<lparr>ctx_key = key, ctx_iv = last (iv # cs), ctx_buf = rest, ctx_final = None\<rparr> = concat CS"
    by (simp only: enc_final ct)
  have f6: "int_add (int (length (concat full))) (int (length rest)) = int (length bs)"
    by (simp only: full_eq in_lens)
  have f7: "concat full @ rest = bs"
    by (simp only: full_eq whole)
  from enc_update f2 f3 dec_update dec_final f6 f7 show ?thesis
    by (rule that)
qed

text \<open>
  Claim C7. For every byte string \<open>p\<close> shorter than \<open>2 ^ 31 - 16\<close> bytes, the empty string
  and strings with embedded NUL bytes included, decrypting the encryption of \<open>p\<close> returns
  \<open>p\<close>. The block cipher is any pair that encrypts and decrypts 16-byte blocks. The bound
  keeps the padded length within the \<^verbatim>\<open>int\<close> parameters and counters of the two
  functions.
\<close>

theorem encrypt_decrypt_roundtrip:
  assumes "block_cipher_pair E D" and "length p < 2 ^ 31 - 16"
  shows "decrypt_session_data D (encrypt_session_data E p) = Inr p"
proof -
  have iv: "length MASTER_IV = 16" by simp
  have len: "length (bytes_of_string p) < 2 ^ 31 - 16"
    using assms(2) by simp
  from evp_roundtrip [OF assms(1) iv len, of MASTER_KEY]
  obtain out1 ctx ct p1 ctx' p2 where
    f1: "EVP_EncryptUpdate E (EVP_EncryptInit_ex MASTER_KEY MASTER_IV) (bytes_of_string p)
           (int_of_size_t (length (bytes_of_string p))) = (out1, ctx)"
    and f2: "int_add (int (length out1)) (int (length (EVP_EncryptFinal_ex E ctx))) = int (length ct)"
    and f3: "out1 @ EVP_EncryptFinal_ex E ctx = ct"
    and f4: "EVP_DecryptUpdate D (EVP_DecryptInit_ex MASTER_KEY MASTER_IV) ct
           (int_of_size_t (length ct)) = (p1, ctx')"
    and f5: "EVP_DecryptFinal_ex ctx' = Some p2"
    and f6: "int_add (int (length p1)) (int (length p2)) = int (length (bytes_of_string p))"
    and f7: "p1 @ p2 = bytes_of_string p"
    by blast
  have e: "encrypt_session_data E p = to_hex ct"
    using f1 by (simp add: encrypt_session_data_def Let_def f2 f3 del: take_append)
  have "decrypt_session_data D (to_hex ct) = Inr p"
    using f6 by (simp add: decrypt_session_data_def from_hex_to_hex Let_def f4 f5 f7
        del: take_append)
  with e show ?thesis by simp
qed

lemma xor_cipher_pair: "block_cipher_pair xor_cipher xor_cipher"
  by (simp add: block_cipher_pair_def xor_cipher_def xor.assoc map_idI)

theorem encrypt_decrypt_roundtrip_witness:
  "block_cipher_pair xor_cipher xor_cipher
   \<and> length ([] :: string) < 2 ^ 31 - 16
   \<and> decrypt_session_data xor_cipher (encrypt_session_data xor_cipher []) = Inr []
   \<and> length [CHR ''a'', CHR 0x00, CHR ''b'', CHR 0x00] < 2 ^ 31 - 16
   \<and> decrypt_session_data xor_cipher
         (encrypt_session_data xor_cipher [CHR ''a'', CHR 0x00, CHR ''b'', CHR 0x00])
       = Inr [CHR ''a'', CHR 0x00, CHR ''b'', CHR 0x00]"
  using xor_cipher_pair
    encrypt_decrypt_roundtrip [OF xor_cipher_pair, of "[]"]
    encrypt_decrypt_roundtrip [OF xor_cipher_pair, of "[CHR ''a'', CHR 0x00, CHR ''b'', CHR 0x00]"]
  by simp

text \<open>
  A payload of \<open>2 ^ 32 + 5\<close> bytes: its length reaches \<^verbatim>\<open>EVP_EncryptUpdate\<close> as the
  \<^verbatim>\<open>int\<close> 5, so five bytes are encrypted and five come back.
\<close>

lemma int_of_size_t_wrap: "int_of_size_t (2 ^ 32 + 5) = 5"
  by (simp add: int_of_size_t_def)

lemma encrypt_long:
  "encrypt_session_data E (replicate (2 ^ 32 + 5) c) = encrypt_session_data E (replicate 5 c)"
proof -
  have a: "int_of_size_t (length (replicate (2 ^ 32 + 5) c)) = 5"
    by (simp only: length_replicate int_of_size_t_wrap)
  have b: "int_of_size_t (length (replicate 5 c)) = 5"
    by (simp add: int_of_size_t_def)
  have c: "take 5 (bytes_of_string (replicate (2 ^ 32 + 5) c)) = take 5 (bytes_of_string (replicate 5 c))"
    by (simp only: bytes_of_string_def take_map take_replicate) simp
  show ?thesis
    unfolding encrypt_session_data_def a b EVP_EncryptUpdate_def
    by (simp only: c nat_numeral Let_def)
qed

lemma roundtrip_five:
  "decrypt_session_data xor_cipher (encrypt_session_data xor_cipher ''aaaaa'') = Inr ''aaaaa''"
  by code_simp

theorem encrypt_decrypt_roundtrip_counterexample:
  "decrypt_session_data xor_cipher
     (encrypt_session_data xor_cipher (replicate (2 ^ 32 + 5) (CHR ''a''))) = Inr ''aaaaa''"
proof -
  have "replicate 5 (CHR ''a'') = ''aaaaa''"
    by (simp add: numeral_eq_Suc)
  then show ?thesis
    by (simp only: encrypt_long roundtrip_five)
qed
section \<open>The attempt counter within one window\<close>

lemma entry_at_upd [simp]: "entry_at (tbl(ip \<mapsto> e)) ip = e"
  by (simp add: entry_at_def)

lemma sint_of_nat_small: "n < 2 ^ 31 \<Longrightarrow> sint (of_nat n :: 32 word) = int n"
  by (simp add: signed_of_nat signed_take_bit_int_eq_self)

lemma rate_limited_iff:
  "fst (is_rate_limited ip now tbl) \<longleftrightarrow>
     \<not> reset_time (entry_at tbl ip) < now \<and> MAX_ATTEMPTS \<le>s attempts (entry_at tbl ip)"
  by (simp add: is_rate_limited_def reset_if_expired_def Let_def MAX_ATTEMPTS_def word_sle_eq)

lemma record_in_window:
  "\<forall>t\<in>set ts. t \<le> reset_time (entry_at tbl ip) \<Longrightarrow>
   entry_at (record_failed_attempts ip ts tbl) ip =
     (entry_at tbl ip)\<lparr>attempts := attempts (entry_at tbl ip) + of_nat (length ts)\<rparr>"
proof (induction ts arbitrary: tbl)
  case Nil
  then show ?case by (simp add: record_failed_attempts_def)
next
  case (Cons t ts)
  let ?tbl = "record_failed_attempt ip t tbl"
  have e: "entry_at ?tbl ip = (entry_at tbl ip)\<lparr>attempts := attempts (entry_at tbl ip) + 1\<rparr>"
    using Cons.prems by (simp add: record_failed_attempt_def reset_if_expired_def Let_def)
  have "\<forall>t\<in>set ts. t \<le> reset_time (entry_at ?tbl ip)"
    using Cons.prems by (simp add: e)
  from Cons.IH [OF this] show ?case
    by (simp add: record_failed_attempts_def e add.assoc)
qed

lemma record_opens_window:
  "reset_time (entry_at tbl ip) < t0 \<Longrightarrow>
   entry_at (record_failed_attempt ip t0 tbl) ip = \<lparr>attempts = 1, reset_time = t0 + RESET_WINDOW\<rparr>"
  by (simp add: record_failed_attempt_def reset_if_expired_def Let_def)

lemma window_entry:
  assumes "reset_time (entry_at tbl ip) < t0" and "\<forall>t\<in>set ts. t \<le> t0 + RESET_WINDOW"
  shows "entry_at (record_failed_attempts ip (t0 # ts) tbl) ip =
           \<lparr>attempts = of_nat (Suc (length ts)), reset_time = t0 + RESET_WINDOW\<rparr>"
proof -
  let ?tbl = "record_failed_attempt ip t0 tbl"
  have e: "entry_at ?tbl ip = \<lparr>attempts = 1, reset_time = t0 + RESET_WINDOW\<rparr>"
    by (rule record_opens_window [OF assms(1)])
  have "\<forall>t\<in>set ts. t \<le> reset_time (entry_at ?tbl ip)"
    using assms(2) by (simp add: e)
  from record_in_window [OF this] have
    "entry_at (record_failed_attempts ip ts ?tbl) ip = \<lparr>attempts = 1 + of_nat (length ts), reset_time = t0 + RESET_WINDOW\<rparr>"
    by (simp add: e)
  then show ?thesis by (simp add: record_failed_attempts_def)
qed

text \<open>
  Claim C6, for the fixed window of the source. Let the first failed attempt of an
  address, at time \<open>t0\<close>, open a new window (the address has no entry, or its window has
  expired), and let the further attempts \<open>ts\<close> fall within the 60 seconds after \<open>t0\<close>.
  Then within that window \<open>is_rate_limited\<close> returns true exactly when at least 5
  attempts were recorded, and after the window has elapsed it returns false, the counter
  being reset to zero by \<open>is_rate_limited\<close> (and restarted at 1 by
  \<open>record_failed_attempt\<close>). In any state, \<open>is_rate_limited\<close> is true iff the window has
  not expired and the counter is at least 5; so it is also true after 5 attempts, and not
  after fewer, within a window that was open with the counter at zero.
\<close>

theorem rate_limit_window:
  assumes fresh: "reset_time (entry_at tbl ip) < t0"
      and inside: "\<forall>t\<in>set ts. t \<le> t0 + RESET_WINDOW"
      and small: "Suc (length ts) < 2 ^ 31"
  shows "(t \<le> t0 + RESET_WINDOW \<longrightarrow>
            (fst (is_rate_limited ip t (record_failed_attempts ip (t0 # ts) tbl))
               \<longleftrightarrow> 5 \<le> length (t0 # ts)))
       \<and> (t0 + RESET_WINDOW < t \<longrightarrow>
            \<not> fst (is_rate_limited ip t (record_failed_attempts ip (t0 # ts) tbl))
          \<and> attempts (entry_at (snd (is_rate_limited ip t
                (record_failed_attempts ip (t0 # ts) tbl))) ip) = 0
          \<and> attempts (entry_at (record_failed_attempt ip t
                (record_failed_attempts ip (t0 # ts) tbl)) ip) = 1)
       \<and> (fst (is_rate_limited ip t tbl) \<longleftrightarrow>
            \<not> reset_time (entry_at tbl ip) < t \<and> MAX_ATTEMPTS \<le>s attempts (entry_at tbl ip))
       \<and> (attempts (entry_at tbl' ip) = 0
            \<and> (\<forall>u\<in>set us. u \<le> reset_time (entry_at tbl' ip))
            \<and> length us < 2 ^ 31 \<and> t \<le> reset_time (entry_at tbl' ip) \<longrightarrow>
            (fst (is_rate_limited ip t (record_failed_attempts ip us tbl'))
               \<longleftrightarrow> 5 \<le> length us))"
proof -
  let ?tbl = "record_failed_attempts ip (t0 # ts) tbl"
  have e: "entry_at ?tbl ip = \<lparr>attempts = of_nat (Suc (length ts)), reset_time = t0 + RESET_WINDOW\<rparr>"
    by (rule window_entry [OF fresh inside])
  have s: "sint (of_nat (Suc (length ts)) :: 32 word) = int (Suc (length ts))"
    by (rule sint_of_nat_small [OF small])
  have a: "t \<le> t0 + RESET_WINDOW \<Longrightarrow> fst (is_rate_limited ip t ?tbl) \<longleftrightarrow> 5 \<le> length (t0 # ts)"
    unfolding rate_limited_iff e using s by (simp add: MAX_ATTEMPTS_def word_sle_eq)
  have b: "t0 + RESET_WINDOW < t \<Longrightarrow> \<not> fst (is_rate_limited ip t ?tbl)"
    unfolding rate_limited_iff e by simp
  have c: "t0 + RESET_WINDOW < t \<Longrightarrow> attempts (entry_at (snd (is_rate_limited ip t ?tbl)) ip) = 0"
    by (simp add: is_rate_limited_def Let_def e reset_if_expired_def)
  have d: "t0 + RESET_WINDOW < t \<Longrightarrow> attempts (entry_at (record_failed_attempt ip t ?tbl) ip) = 1"
    by (simp add: record_failed_attempt_def Let_def e reset_if_expired_def)
  have f: "fst (is_rate_limited ip t (record_failed_attempts ip us tbl')) \<longleftrightarrow> 5 \<le> length us"
    if z: "attempts (entry_at tbl' ip) = 0"
      and w: "\<forall>u\<in>set us. u \<le> reset_time (entry_at tbl' ip)"
      and l: "length us < 2 ^ 31" and i: "t \<le> reset_time (entry_at tbl' ip)"
  proof -
    have "sint (of_nat (length us) :: 32 word) = int (length us)"
      by (rule sint_of_nat_small [OF l])
    then show ?thesis
      unfolding rate_limited_iff record_in_window [OF w]
      using i by (simp add: z MAX_ATTEMPTS_def word_sle_eq)
  qed
  show ?thesis using a b c d f rate_limited_iff by blast
qed

theorem rate_limit_window_witness:
  "reset_time (entry_at Map.empty ''203.0.113.5'') < 1700000000
   \<and> list_all (\<lambda>t. t \<le> 1700000000 + RESET_WINDOW)
         [1700000002, 1700000004, 1700000006, 1700000008]
   \<and> fst (is_rate_limited ''203.0.113.5'' 1700000009
        (record_failed_attempts ''203.0.113.5''
           [1700000000, 1700000002, 1700000004, 1700000006, 1700000008] Map.empty))
   \<and> \<not> fst (is_rate_limited ''203.0.113.5'' 1700000009
        (record_failed_attempts ''203.0.113.5''
           [1700000000, 1700000002, 1700000004, 1700000006] Map.empty))
   \<and> \<not> fst (is_rate_limited ''203.0.113.5'' 1700000061
        (record_failed_attempts ''203.0.113.5''
           [1700000000, 1700000002, 1700000004, 1700000006, 1700000008] Map.empty))
   \<and> attempts (entry_at (ip_attempts demo_server) ''10.0.0.1'') = 0
   \<and> reset_time (entry_at (ip_attempts demo_server) ''10.0.0.1'') = 1700000060
   \<and> fst (is_rate_limited ''10.0.0.1'' 1700000060
        (record_failed_attempts ''10.0.0.1''
           [1700000010, 1700000020, 1700000030, 1700000040, 1700000050]
           (ip_attempts demo_server)))"
proof -
  have h1: "reset_time (entry_at Map.empty ''203.0.113.5'') < 1700000000"
    by (simp add: entry_at_def default_entry_def)
  have h2: "\<forall>t\<in>set [1700000002, 1700000004, 1700000006, 1700000008]. t \<le> 1700000000 + RESET_WINDOW"
    by (simp add: RESET_WINDOW_def)
  have h3: "Suc (length [1700000002, 1700000004, 1700000006, 1700000008 :: int]) < 2 ^ 31"
    by simp
  have k2: "\<forall>t\<in>set [1700000002, 1700000004, 1700000006]. t \<le> 1700000000 + RESET_WINDOW"
    by (simp add: RESET_WINDOW_def)
  have k3: "Suc (length [1700000002, 1700000004, 1700000006 :: int]) < 2 ^ 31"
    by simp
  have e: "entry_at (ip_attempts demo_server) ''10.0.0.1'' = \<lparr>attempts = 0, reset_time = 1700000060\<rparr>"
    by (simp add: demo_server_def entry_at_def)
  have g1: "reset_time (entry_at Map.empty ''10.0.0.1'') < 1"
    by (simp add: entry_at_def default_entry_def)
  have g2: "\<forall>t\<in>set ([] :: int list). t \<le> 1 + RESET_WINDOW"
    by simp
  have g3: "Suc (length ([] :: int list)) < 2 ^ 31"
    by simp
  from rate_limit_window [OF h1 h2 h3, where t = 1700000009 and tbl' = Map.empty and us = "[]"]
    rate_limit_window [OF h1 h2 h3, where t = 1700000061 and tbl' = Map.empty and us = "[]"]
    rate_limit_window [OF h1 k2 k3, where t = 1700000009 and tbl' = Map.empty and us = "[]"]
    rate_limit_window [OF g1 g2 g3, where t = 1700000060 and tbl' = "ip_attempts demo_server"
      and us = "[1700000010, 1700000020, 1700000030, 1700000040, 1700000050]"]
  show ?thesis using h1 by (simp add: RESET_WINDOW_def e)
qed

text \<open>
  The window is not a rolling one. A call of \<open>is_rate_limited\<close> at 1700000000 opens the
  window that ends at 1700000060; five failed attempts follow within 12 seconds, three
  before that end and two after it. The fourth attempt restarts the counter, so the call at
  1700000063 finds the counter at 2 and answers false.
\<close>

theorem rate_limit_window_counterexample:
  "\<not> fst (is_rate_limited ''203.0.113.5'' 1700000063
        (record_failed_attempts ''203.0.113.5''
           [1700000050, 1700000055, 1700000058, 1700000061, 1700000062]
           (snd (is_rate_limited ''203.0.113.5'' 1700000000 Map.empty))))
   \<and> attempts (entry_at
        (record_failed_attempts ''203.0.113.5''
           [1700000050, 1700000055, 1700000058, 1700000061, 1700000062]
           (snd (is_rate_limited ''203.0.113.5'' 1700000000 Map.empty))) ''203.0.113.5'') = 2"
  by (simp add: record_failed_attempts_def record_failed_attempt_def is_rate_limited_def
      reset_if_expired_def Let_def entry_at_def default_entry_def RESET_WINDOW_def
      MAX_ATTEMPTS_def word_sle_eq)
section \<open>The guards\<close>

text \<open>
  Claim C9. \<open>require_auth\<close> returns true for an authenticated user and leaves the
  response alone; otherwise it returns false and the response (when there is one) gets
  status 401, the JSON body \<^verbatim>\<open>{"error": "Unauthorized"}\<close> and the JSON content type.
  \<open>require_admin\<close> does the same for an unauthenticated user, answers 403 with the body
  \<^verbatim>\<open>{"error": "Forbidden"}\<close> for an authenticated user whose role is not \<^verbatim>\<open>admin\<close>,
  and returns true only for an authenticated admin.
\<close>

theorem require_guards:
  \<open>(is_authenticated cu \<longrightarrow> require_auth cu resp = (True, resp))
   \<and> (\<not> is_authenticated cu \<longrightarrow>
         require_auth cu resp = (False, map_option unauthorized resp)
       \<and> require_admin cu resp = (False, map_option unauthorized resp))
   \<and> (is_authenticated cu \<and> get cu ''role'' \<noteq> ''admin'' \<longrightarrow>
         require_admin cu resp = (False, map_option forbidden resp))
   \<and> (fst (require_admin cu resp) \<longleftrightarrow> is_authenticated cu \<and> get cu ''role'' = ''admin'')
   \<and> (fst (require_admin cu resp) \<longrightarrow> snd (require_admin cu resp) = resp)
   \<and> status (unauthorized r) = 401
   \<and> body (unauthorized r) = ''{"error": "Unauthorized"}''
   \<and> headers (unauthorized r) ''Content-Type'' = Some ''application/json''
   \<and> status (forbidden r) = 403
   \<and> body (forbidden r) = ''{"error": "Forbidden"}''
   \<and> headers (forbidden r) ''Content-Type'' = Some ''application/json''\<close>
  by (simp add: require_auth_def require_admin_def unauthorized_def forbidden_def)

theorem require_guards_witness:
  \<open>\<not> is_authenticated anonymous_user
   \<and> require_auth anonymous_user (Some blank_response)
       = (False, Some (unauthorized blank_response))
   \<and> is_authenticated (signed_in_user ''editor'')
   \<and> get (signed_in_user ''editor'') ''role'' \<noteq> ''admin''
   \<and> require_admin (signed_in_user ''editor'') (Some blank_response)
       = (False, Some (forbidden blank_response))
   \<and> is_authenticated (signed_in_user ''admin'')
   \<and> fst (require_admin (signed_in_user ''admin'') (Some blank_response))
   \<and> snd (require_admin (signed_in_user ''admin'') (Some blank_response))
       = Some blank_response
   \<and> require_auth (signed_in_user ''admin'') (Some blank_response)
       = (True, Some blank_response)\<close>
proof -
  have a: \<open>\<not> is_authenticated anonymous_user\<close>
    by (simp add: anonymous_user_def)
  have e: \<open>is_authenticated (signed_in_user ''editor'') \<and> get (signed_in_user ''editor'') ''role'' \<noteq> ''admin''\<close>
    by (simp add: signed_in_user_def get_def)
  have b: \<open>is_authenticated (signed_in_user ''admin'') \<and> get (signed_in_user ''admin'') ''role'' = ''admin''\<close>
    by (simp add: signed_in_user_def get_def)
  from a e b
    require_guards [of anonymous_user "Some blank_response"]
    require_guards [of "signed_in_user ''editor''" "Some blank_response"]
    require_guards [of "signed_in_user ''admin''" "Some blank_response"]
  show ?thesis by simp
qed

section \<open>Loading a cached session\<close>

lemma load_session_hit:
  "session_cache st sid = Some s \<Longrightarrow>
   load_session L sid ip ua now st =
     (if ip_address s \<noteq> ip \<or> user_agent s \<noteq> ua
      then (Inr Session_default, detect_hijack_attempt L sid ip now st)
      else if expires_at s < timestamp_now L now
      then (Inr Session_default, st\<lparr>session_cache := (session_cache st)(sid := None)\<rparr>)
      else (Inr s, st))"
  by (simp add: load_session_def)

lemma to_string_0: "to_string 0 = ''0''"
  by (simp add: to_string_def dec_digits.simps digit_char_def)

lemma hijack_frame:
  "session_cache (detect_hijack_attempt L sid ip now st) = session_cache st
   \<and> ip_attempts (detect_hijack_attempt L sid ip now st) = ip_attempts st
   \<and> entropy (detect_hijack_attempt L sid ip now st) = entropy st
   \<and> tables (db (detect_hijack_attempt L sid ip now st)) ''sessions'' = tables (db st) ''sessions''
   \<and> pending_updates (db (detect_hijack_attempt L sid ip now st)) = pending_updates (db st)"
  by (simp add: detect_hijack_attempt_def log_session_event_def Let_def write_audit_log_to_db_def
      six_sql_insert_def)

lemma hijack_logged:
  "log_queue (detect_hijack_attempt L sid ip now st) =
     log_queue st @
       [\<lparr>log_session_id = sid, log_user_id = 0, action = ''hijack_attempt'',
         log_ip_address = ip, log_user_agent = [], timestamp = strftime_gmtime L now,
         details = ''Session accessed from different IP''\<rparr>]
   \<and> tables (db (detect_hijack_attempt L sid ip now st)) ''session_audit_log'' =
       tables (db st) ''session_audit_log'' @
         (if available (db st)
          then [[(''session_id'', c_str sid), (''user_id'', ''0''), (''action'', ''hijack_attempt''),
                 (''ip_address'', c_str ip), (''user_agent'', []),
                 (''timestamp'', c_str (strftime_gmtime L now)),
                 (''details'', ''Session accessed from different IP'')]]
          else [])"
  by (simp add: detect_hijack_attempt_def log_session_event_def Let_def write_audit_log_to_db_def
      six_sql_insert_def key_conflict_def primary_key_def to_string_0 bound_values_def)
     (simp add: c_str_def)

text \<open>
  Claim C4. For a cached session, \<open>load_session\<close> with an IP address or a user agent
  other than the recorded one returns the default session, whose \<open>exists\<close> is false, as
  a value and not as an error, and adds exactly one \<^verbatim>\<open>hijack_attempt\<close> entry to the audit
  queue (and one row to the audit table when the database is available), also when both
  differ. The queue entry holds the presented id and address; the row holds them as the C
  strings that are bound to the statement, up to a first NUL.
\<close>

theorem load_session_hijack:
  assumes "session_cache st sid = Some s"
      and "ip_address s \<noteq> ip \<or> user_agent s \<noteq> ua"
  shows "fst (load_session L sid ip ua now st) = Inr Session_default
       \<and> \<not> exists Session_default
       \<and> log_queue (snd (load_session L sid ip ua now st)) =
           log_queue st @
             [\<lparr>log_session_id = sid, log_user_id = 0, action = ''hijack_attempt'',
               log_ip_address = ip, log_user_agent = [], timestamp = strftime_gmtime L now,
               details = ''Session accessed from different IP''\<rparr>]
       \<and> tables (db (snd (load_session L sid ip ua now st))) ''session_audit_log'' =
           tables (db st) ''session_audit_log'' @
             (if available (db st)
              then [[(''session_id'', c_str sid), (''user_id'', ''0''),
                     (''action'', ''hijack_attempt''),
                     (''ip_address'', c_str ip), (''user_agent'', []),
                     (''timestamp'', c_str (strftime_gmtime L now)),
                     (''details'', ''Session accessed from different IP'')]]
              else [])"
  using assms hijack_logged [of L sid ip now st]
  by (simp add: load_session_hit Session_default_def)

lemma demo_cached: "session_cache demo_server demo_sid = Some demo_session"
  by (simp add: demo_server_def)

lemma demo_binding: "ip_address demo_session = ''10.0.0.1'' \<and> user_agent demo_session = ''A''"
  by (simp add: demo_session_def)

theorem load_session_hijack_witness:
  "session_cache demo_server demo_sid = Some demo_session
   \<and> ip_address demo_session \<noteq> ''10.0.0.2''
   \<and> user_agent demo_session \<noteq> ''B''
   \<and> fst (load_session demo_libs demo_sid ''10.0.0.2'' ''B'' 1700000100 demo_server)
       = Inr Session_default
   \<and> length (log_queue (snd (load_session demo_libs demo_sid ''10.0.0.2'' ''B'' 1700000100
        demo_server))) = Suc (length (log_queue demo_server))
   \<and> ip_address demo_session \<noteq> ''10.0.0.2'' @ [CHR 0x00] @ '', 10.0.0.1''
   \<and> map log_ip_address (log_queue (snd (load_session demo_libs demo_sid
        (''10.0.0.2'' @ [CHR 0x00] @ '', 10.0.0.1'') ''A'' 1700000100 demo_server)))
       = map log_ip_address (log_queue demo_server) @ [''10.0.0.2'' @ [CHR 0x00] @ '', 10.0.0.1'']
   \<and> map (\<lambda>r. row_get r ''ip_address'')
        (tables (db (snd (load_session demo_libs demo_sid
           (''10.0.0.2'' @ [CHR 0x00] @ '', 10.0.0.1'') ''A'' 1700000100 demo_server)))
          ''session_audit_log'')
       = map (\<lambda>r. row_get r ''ip_address'') (tables (db demo_server) ''session_audit_log'')
         @ [''10.0.0.2'']"
proof -
  have m: "ip_address demo_session \<noteq> ''10.0.0.2'' \<and> user_agent demo_session \<noteq> ''B''"
    by (simp add: demo_session_def)
  then have d: "ip_address demo_session \<noteq> ''10.0.0.2'' \<or> user_agent demo_session \<noteq> ''B''"
    by simp
  have n: "ip_address demo_session \<noteq> ''10.0.0.2'' @ [CHR 0x00] @ '', 10.0.0.1''"
    by (simp add: demo_session_def)
  then have d': "ip_address demo_session \<noteq> ''10.0.0.2'' @ [CHR 0x00] @ '', 10.0.0.1''
      \<or> user_agent demo_session \<noteq> ''A''"
    by simp
  have a: "available (db demo_server)"
    by (simp add: demo_server_def demo_database_def)
  from load_session_hijack [OF demo_cached d, of demo_libs 1700000100]
    load_session_hijack [OF demo_cached d', of demo_libs 1700000100] m n demo_cached
  show ?thesis by (simp add: a c_str_def row_get_def)
qed

text \<open>
  Claim C10. A load that ends in a binding mismatch leaves the cache as it was: the session
  is still cached, unchanged, and a later load with the recorded IP address and user agent,
  before the expiry, returns that session, with \<open>exists\<close> true.
\<close>

theorem mismatch_keeps_session_cached:
  assumes "session_cache st sid = Some s"
      and "ip_address s \<noteq> ip \<or> user_agent s \<noteq> ua"
      and "exists s"
      and "\<not> expires_at s < timestamp_now L later"
  shows "session_cache (snd (load_session L sid ip ua now st)) = session_cache st
       \<and> session_cache (snd (load_session L sid ip ua now st)) sid = Some s
       \<and> load_session L sid (ip_address s) (user_agent s) later
            (snd (load_session L sid ip ua now st))
           = (Inr s, snd (load_session L sid ip ua now st))
       \<and> exists s"
proof -
  let ?st = "snd (load_session L sid ip ua now st)"
  have st: "?st = detect_hijack_attempt L sid ip now st"
    using assms(1,2) by (simp add: load_session_hit)
  have c: "session_cache ?st = session_cache st"
    by (simp add: st hijack_frame)
  then have c': "session_cache ?st sid = Some s"
    using assms(1) by simp
  have "load_session L sid (ip_address s) (user_agent s) later ?st = (Inr s, ?st)"
    using assms(4) by (simp add: load_session_hit [OF c'])
  with c c' assms(3) show ?thesis by simp
qed

lemma demo_now: "timestamp_now demo_libs 1700003600 = ''2023-11-14 23:13:20''"
  by code_simp

lemma demo_later: "timestamp_now demo_libs 1700003601 = ''2023-11-14 23:13:21''"
  by code_simp

lemma demo_expires: "expires_at demo_session = ''2023-11-14 23:13:20''"
  by (simp add: demo_session_def)

theorem mismatch_keeps_session_cached_witness:
  "session_cache demo_server demo_sid = Some demo_session
   \<and> ip_address demo_session \<noteq> ''10.0.0.2''
   \<and> exists demo_session
   \<and> \<not> expires_at demo_session < timestamp_now demo_libs 1700003600
   \<and> load_session demo_libs demo_sid ''10.0.0.1'' ''A'' 1700003600
        (snd (load_session demo_libs demo_sid ''10.0.0.2'' ''A'' 1700000100 demo_server))
       = (Inr demo_session,
          snd (load_session demo_libs demo_sid ''10.0.0.2'' ''A'' 1700000100 demo_server))"
proof -
  have m: "ip_address demo_session \<noteq> ''10.0.0.2''"
    by (simp add: demo_session_def)
  then have d: "ip_address demo_session \<noteq> ''10.0.0.2'' \<or> user_agent demo_session \<noteq> ''A''"
    by simp
  have e: "exists demo_session"
    by (simp add: demo_session_def)
  have u: "\<not> expires_at demo_session < timestamp_now demo_libs 1700003600"
    by (simp add: demo_now demo_expires)
  from mismatch_keeps_session_cached [OF demo_cached d e u, of 1700000100] m e u demo_cached
  show ?thesis by (simp add: demo_binding)
qed

lemma never_expired:
  "load_session L sid ip ua now st = (Inr r, st') \<Longrightarrow> exists r \<Longrightarrow>
   \<not> expires_at r < timestamp_now L now"
  by (auto simp: load_session_def Session_default_def Let_def
      split: option.splits if_splits sum.splits prod.splits)

text \<open>
  Claim C5, amended. \<open>load_session\<close> never returns an existing session whose
  \<open>expires_at\<close> is before the current timestamp, from the cache or from the database. A
  cached session that has expired is answered with the default session (\<open>exists\<close> false);
  it is erased from the cache when the presented IP address and user agent are the recorded
  ones. (On a binding mismatch the load ends at the hijack check before the expiry is looked
  at, and the entry stays cached: the counterexample below.)
\<close>

theorem load_session_expired:
  "(load_session L sid ip ua now st = (Inr r, st') \<and> exists r
      \<longrightarrow> \<not> expires_at r < timestamp_now L now)
   \<and> (session_cache st sid = Some s \<and> expires_at s < timestamp_now L now
      \<longrightarrow> fst (load_session L sid ip ua now st) = Inr Session_default
        \<and> \<not> exists Session_default)
   \<and> (session_cache st sid = Some s \<and> expires_at s < timestamp_now L now
        \<and> ip_address s = ip \<and> user_agent s = ua
      \<longrightarrow> snd (load_session L sid ip ua now st)
            = st\<lparr>session_cache := (session_cache st)(sid := None)\<rparr>
        \<and> session_cache (snd (load_session L sid ip ua now st)) sid = None)"
  using never_expired [of L sid ip ua now st r st']
  by (auto simp: load_session_hit Session_default_def)

theorem load_session_expired_counterexample:
  "session_cache demo_server demo_sid = Some demo_session
   \<and> expires_at demo_session < timestamp_now demo_libs 1700003601
   \<and> fst (load_session demo_libs demo_sid ''10.0.0.2'' ''A'' 1700003601 demo_server)
       = Inr Session_default
   \<and> session_cache (snd (load_session demo_libs demo_sid ''10.0.0.2'' ''A'' 1700003601
        demo_server)) demo_sid = Some demo_session"
proof -
  have "expires_at demo_session < timestamp_now demo_libs 1700003601"
    by (simp add: demo_later demo_expires)
  then show ?thesis
    using demo_cached
    by (simp add: load_session_hit [OF demo_cached] demo_binding hijack_frame)
qed

theorem load_session_expired_witness:
  "session_cache demo_server demo_sid = Some demo_session
   \<and> expires_at demo_session < timestamp_now demo_libs 1700003601
   \<and> ip_address demo_session = ''10.0.0.1'' \<and> user_agent demo_session = ''A''
   \<and> fst (load_session demo_libs demo_sid ''10.0.0.1'' ''A'' 1700003601 demo_server)
       = Inr Session_default
   \<and> session_cache (snd (load_session demo_libs demo_sid ''10.0.0.1'' ''A'' 1700003601
        demo_server)) demo_sid = None
   \<and> load_session demo_libs demo_sid ''10.0.0.1'' ''A'' 1700003600 demo_server
       = (Inr demo_session, demo_server)
   \<and> exists demo_session
   \<and> \<not> expires_at demo_session < timestamp_now demo_libs 1700003600"
proof -
  have x: "expires_at demo_session < timestamp_now demo_libs 1700003601"
    by (simp add: demo_later demo_expires)
  have u: "\<not> expires_at demo_session < timestamp_now demo_libs 1700003600"
    by (simp add: demo_now demo_expires)
  have l: "load_session demo_libs demo_sid ''10.0.0.1'' ''A'' 1700003600 demo_server
       = (Inr demo_session, demo_server)"
    using u by (simp add: load_session_hit [OF demo_cached] demo_binding)
  have e: "exists demo_session"
    by (simp add: demo_session_def)
  from load_session_expired [of demo_libs demo_sid "''10.0.0.1''" "''A''" 1700003601 demo_server
      demo_session demo_server demo_session]
    load_session_expired [of demo_libs demo_sid "''10.0.0.1''" "''A''" 1700003600 demo_server
      demo_session demo_server demo_session]
    x u l e demo_cached demo_binding
  show ?thesis by simp
qed

section \<open>Creating a session\<close>

lemma get_unique_salt_ok:
  "16 \<le> length (entropy st) \<Longrightarrow>
   get_unique_salt st = (Inr (to_hex (take 16 (entropy st))), st\<lparr>entropy := drop 16 (entropy st)\<rparr>)"
  by (simp add: get_unique_salt_def generate_random_salt_def RAND_bytes_def)

lemma random_bytes_ok:
  "n \<le> length (entropy st) \<Longrightarrow>
   generate_secure_random_bytes n st = (Inr (to_hex (take n (entropy st))), st\<lparr>entropy := drop n (entropy st)\<rparr>)"
  by (simp add: generate_secure_random_bytes_def RAND_bytes_def)

lemma create_session_ok:
  assumes "\<not> fst (is_rate_limited ip now (ip_attempts st))"
      and "96 \<le> length (entropy st)"
      and "hash_with_salt L (to_hex (take 32 (entropy st)))
             (to_hex (take 16 (drop 32 (entropy st)))) = Inr sid_hash"
      and "hash_with_salt L (to_hex (take 32 (drop 48 (entropy st))))
             (to_hex (take 16 (drop 80 (entropy st)))) = Inr rtoken_hash"
  shows "create_session L uid ip ua now st =
           (case store_new_session L uid ip ua now
                   (to_hex (take 32 (entropy st))) (to_hex (take 16 (drop 32 (entropy st))))
                   sid_hash
                   (to_hex (take 32 (drop 48 (entropy st)))) rtoken_hash
                   (st\<lparr>ip_attempts := snd (is_rate_limited ip now (ip_attempts st)),
                       entropy := drop 96 (entropy st)\<rparr>) of
              (s, st') \<Rightarrow> (Inr s, st'))"
proof -
  obtain tbl where r: "is_rate_limited ip now (ip_attempts st) = (False, tbl)"
    using assms(1) by (cases "is_rate_limited ip now (ip_attempts st)") auto
  show ?thesis
    using assms(2-4)
    by (simp add: create_session_def r generate_session_id_def random_bytes_ok
        get_unique_salt_ok)
qed

lemma store_new_session_result:
  "session_id (fst (store_new_session L uid ip ua now sid salt sid_hash rtoken rtoken_hash st)) = sid
   \<and> exists (fst (store_new_session L uid ip ua now sid salt sid_hash rtoken rtoken_hash st))"
  by (simp add: store_new_session_def Let_def)

lemma stub_digest:
  assumes "8 \<le> length bs"
  shows "hash_with_salt demo_libs d (to_hex bs)
     = Inr (to_hex (take 32 (bs @ bytes_of_string d @ replicate 32 0)))"
proof -
  define X where "X = bs @ bytes_of_string d @ replicate 32 (0 :: byte)"
  have l: "32 \<le> length X"
    by (simp add: X_def)
  have "argon2id_hash_raw demo_libs t_cost m_cost parallelism d bs 32 = Inr (take 32 X)"
    using assms by (simp add: demo_libs_def argon2_stub_def X_def)
  then show ?thesis
    using l by (simp add: hash_with_salt_def from_hex_to_hex X_def [symmetric] min_def)
qed

section \<open>Loading a session that is not cached\<close>

lemma hex_digit_not_NUL: "hex_digit n \<noteq> CHR 0x00"
proof -
  have "n mod 16 < 16" by simp
  from nibble_cases [OF this] show ?thesis
    unfolding hex_digit_def by (auto simp: hex_digit_def)
qed

lemma c_str_to_hex [simp]: "c_str (to_hex bs) = to_hex bs"
  by (induction bs) (simp_all add: c_str_def to_hex_def hex_byte_def hex_digit_not_NUL)

lemma hash_with_salt_hex: "hash_with_salt L d salt = Inr h \<Longrightarrow> c_str h = h"
  by (auto simp: hash_with_salt_def split: option.splits sum.splits)

lemma find_by_no_match:
  assumes "list_all (\<lambda>r. \<not> matching column (c_str v) r) (tables d table)"
      and "map_of (pending_updates d) (pending_key table column (c_str v)) = None"
  shows "six_sql_find_by table column v d = (None, d)"
proof -
  have "find (matching column (c_str v)) (tables d table) = None"
    using assms(1) by (simp add: find_None_iff list_all_iff)
  then show ?thesis
    using assms(2) by (simp add: six_sql_find_by_def Let_def)
qed

lemma row_found_None [simp]: "\<not> row_found d None"
  by (simp add: row_found_def)

lemma to_hex_inject: "to_hex a = to_hex b \<Longrightarrow> a = b"
  by (metis from_hex_to_hex option.inject)

lemma fresh_salt_no_digest:
  assumes "salt_sensitive L" and "length fresh = 16"
      and "hash_with_salt L sid (to_hex fresh) = Inr probe"
      and "created_row L r" and "row_get r ''session_id_hash'' = probe"
  shows "row_get r ''session_salt'' = to_hex fresh"
proof -
  from assms(4,5) obtain d bs where b: "length bs = 16" "row_get r ''session_salt'' = to_hex bs"
      "hash_with_salt L d (to_hex bs) = Inr probe"
    by (auto simp: created_row_def)
  from assms(1) b(1) assms(2) b(3) assms(3) have "bs = fresh"
    unfolding salt_sensitive_def by blast
  with b(2) show ?thesis by simp
qed

lemma matching_row_get: "matching column v r \<Longrightarrow> row_get r column = v \<and> r \<noteq> []"
  by (auto simp: matching_def row_get_def)

lemma find_by_match:
  assumes "available d" and "find (matching column (c_str v)) (tables d table) = Some r"
  shows "six_sql_find_by table column v d =
           (Some (pending_key table column (c_str v)),
            d\<lparr>pending_updates :=
                AList.update (pending_key table column (c_str v))
                  \<lparr>cols = bound_values r, table_name = table, where_column = column,
                   where_value = c_str v\<rparr>
                  (pending_updates d)\<rparr>)"
  using assms by (simp add: six_sql_find_by_def Let_def update_conv')

lemma row_read_staged:
  "map_of (pending_updates d) key = Some x \<Longrightarrow> row_read d (Some key) = row_get (cols x)"
  by (rule ext) (simp add: row_read_def)

lemma session_of_row_exists:
  "session_of_row L sid row = Inr s \<Longrightarrow> exists s \<and> session_id s = sid"
  by (auto simp: session_of_row_def split: sum.splits if_splits)

lemma stub_salt_sensitive: "salt_sensitive demo_libs"
  unfolding salt_sensitive_def
proof (intro allI impI, elim conjE)
  fix d d' bs bs' h
  assume l: "length bs = 16" "length bs' = (16 :: nat)"
    and h: "hash_with_salt demo_libs d (to_hex bs) = Inr h"
      "hash_with_salt demo_libs d' (to_hex bs') = Inr h"
  have "to_hex (take 32 (bs @ bytes_of_string d @ replicate 32 0))
      = to_hex (take 32 (bs' @ bytes_of_string d' @ replicate 32 0))"
    using h l by (simp add: stub_digest)
  then have "take 32 (bs @ bytes_of_string d @ replicate 32 0)
      = take 32 (bs' @ bytes_of_string d' @ replicate 32 0)"
    by (rule to_hex_inject)
  then have "take 16 (take 32 (bs @ bytes_of_string d @ replicate 32 0))
      = take 16 (take 32 (bs' @ bytes_of_string d' @ replicate 32 0))"
    by simp
  then show "bs = bs'"
    using l by simp
qed

text \<open>
  Claim C2, amended. On a cache miss \<open>load_session\<close> draws a fresh 16-byte salt from the
  entropy source and looks the session up under the digest of the identifier with that
  salt (\<open>probe\<close>), not with the salt stored in any row.

  \<^item> Let digests under different salts differ, let every stored row of \<^verbatim>\<open>sessions\<close> be
    as \<^verbatim>\<open>create_session\<close> writes it, with a salt other than the fresh one, and let the same
    hold of every row that is staged under a digest. Then the lookup finds no row and the
    load returns the default session, whose \<open>exists\<close> is false; only the 16 bytes of
    entropy are consumed.
  \<^item> When a stored row has the digest \<open>probe\<close> (the counterexample below: the entropy
    source repeats the stored salt), the database is available, the row decodes to a session
    \<open>s\<close> with the presented IP address and user agent and \<open>s\<close> has not expired, the load
    returns \<open>s\<close> with its last activity updated and \<open>exists\<close> true, caches it and logs a
    \<^verbatim>\<open>load\<close> event.

  The salt and the digest are taken to be produced: the entropy source has 16 bytes and
  Argon2 reports no error.
\<close>

theorem load_session_cache_miss:
  assumes miss: "session_cache st sid = None"
      and ent: "16 \<le> length (entropy st)"
      and hash: "hash_with_salt L sid (to_hex (take 16 (entropy st))) = Inr probe"
  shows "(salt_sensitive L
          \<and> (\<forall>r\<in>set (tables (db st) ''sessions'').
                created_row L r
                \<and> row_get r ''session_salt'' \<noteq> to_hex (take 16 (entropy st)))
          \<and> (\<forall>(k, x)\<in>set (pending_updates (db st)).
                \<forall>v. k = pending_key ''sessions'' ''session_id_hash'' v \<longrightarrow>
                  created_row L (cols x) \<and> row_get (cols x) ''session_id_hash'' = v
                  \<and> row_get (cols x) ''session_salt'' \<noteq> to_hex (take 16 (entropy st)))
          \<longrightarrow> load_session L sid ip ua now st
                = (Inr Session_default, st\<lparr>entropy := drop 16 (entropy st)\<rparr>)
            \<and> \<not> exists Session_default)
       \<and> (available (db st)
          \<and> find (matching ''session_id_hash'' probe) (tables (db st) ''sessions'') = Some r
          \<and> session_of_row L sid (row_get (bound_values r)) = Inr s
          \<and> ip_address s = ip \<and> user_agent s = ua
          \<and> \<not> expires_at s < timestamp_now L now
          \<longrightarrow> fst (load_session L sid ip ua now st)
                = Inr (s\<lparr>last_activity := timestamp_now L now, last_activity_ip := ip\<rparr>)
            \<and> exists (s\<lparr>last_activity := timestamp_now L now, last_activity_ip := ip\<rparr>)
            \<and> session_cache (snd (load_session L sid ip ua now st)) sid
                = Some (s\<lparr>last_activity := timestamp_now L now, last_activity_ip := ip\<rparr>)
            \<and> log_queue (snd (load_session L sid ip ua now st))
                = log_queue st @
                  [\<lparr>log_session_id = sid, log_user_id = user_id s, action = ''load'',
                    log_ip_address = ip, log_user_agent = ua,
                    timestamp = strftime_gmtime L now, details = []\<rparr>])"
proof (intro conjI impI)
  let ?fresh = "take 16 (entropy st)"
  let ?st1 = "st\<lparr>entropy := drop 16 (entropy st)\<rparr>"
  let ?key = "pending_key ''sessions'' ''session_id_hash'' probe"
  have c: "c_str probe = probe"
    by (rule hash_with_salt_hex [OF hash])
  have salt: "get_unique_salt st = (Inr (to_hex ?fresh), ?st1)"
    by (rule get_unique_salt_ok [OF ent])
  have len: "length ?fresh = 16"
    using ent by simp
  {
    assume a: "salt_sensitive L
          \<and> (\<forall>r\<in>set (tables (db st) ''sessions'').
                created_row L r
                \<and> row_get r ''session_salt'' \<noteq> to_hex (take 16 (entropy st)))
          \<and> (\<forall>(k, x)\<in>set (pending_updates (db st)).
                \<forall>v. k = pending_key ''sessions'' ''session_id_hash'' v \<longrightarrow>
                  created_row L (cols x) \<and> row_get (cols x) ''session_id_hash'' = v
                  \<and> row_get (cols x) ''session_salt'' \<noteq> to_hex (take 16 (entropy st)))"
    then have sens: "salt_sensitive L" by simp
    have stored: "list_all (\<lambda>r. \<not> matching ''session_id_hash'' probe r) (tables (db st) ''sessions'')"
      unfolding list_all_iff
    proof (intro ballI notI)
      fix r assume r: "r \<in> set (tables (db st) ''sessions'')"
        and m: "matching ''session_id_hash'' probe r"
      from a r have cr: "created_row L r"
        and ne: "row_get r ''session_salt'' \<noteq> to_hex ?fresh"
        by auto
      from matching_row_get [OF m] have "row_get r ''session_id_hash'' = probe"
        by simp
      from fresh_salt_no_digest [OF sens len hash cr this] ne show False
        by simp
    qed
    have staged: "map_of (pending_updates (db st)) ?key = None"
    proof (rule ccontr)
      assume "map_of (pending_updates (db st)) ?key \<noteq> None"
      then obtain x where "map_of (pending_updates (db st)) ?key = Some x"
        by auto
      then have "(?key, x) \<in> set (pending_updates (db st))"
        by (rule map_of_SomeD)
      with a have cr: "created_row L (cols x)"
        and v: "row_get (cols x) ''session_id_hash'' = probe"
        and ne: "row_get (cols x) ''session_salt'' \<noteq> to_hex ?fresh"
        by auto
      from fresh_salt_no_digest [OF sens len hash cr v] ne show False
        by simp
    qed
    have f: "six_sql_find_by ''sessions'' ''session_id_hash'' probe (db st) = (None, db st)"
      by (rule find_by_no_match) (simp_all add: c stored staged)
    show "load_session L sid ip ua now st = (Inr Session_default, ?st1)"
      by (simp add: load_session_def miss salt hash f)
    show "\<not> exists Session_default"
      by (simp add: Session_default_def)
  }
  let ?s = "s\<lparr>last_activity := timestamp_now L now, last_activity_ip := ip\<rparr>"
  assume b: "available (db st)
          \<and> find (matching ''session_id_hash'' probe) (tables (db st) ''sessions'') = Some r
          \<and> session_of_row L sid (row_get (bound_values r)) = Inr s
          \<and> ip_address s = ip \<and> user_agent s = ua
          \<and> \<not> expires_at s < timestamp_now L now"
  let ?staged = "\<lparr>cols = bound_values r, table_name = ''sessions'',
                   where_column = ''session_id_hash'', where_value = probe\<rparr>"
  let ?d = "(db st)\<lparr>pending_updates := AList.update ?key ?staged (pending_updates (db st))\<rparr>"
  have f: "six_sql_find_by ''sessions'' ''session_id_hash'' probe (db st) = (Some ?key, ?d)"
    using b find_by_match [of "db st" "''session_id_hash''" probe "''sessions''" r]
    by (simp add: c)
  have m: "map_of (pending_updates ?d) ?key = Some ?staged"
    by (simp add: update_conv')
  have "matching ''session_id_hash'' probe r"
    using b by (auto simp: find_Some_iff)
  then have "r \<noteq> []"
    using matching_row_get by blast
  then have found: "row_found ?d (Some ?key)"
    by (simp add: row_found_def update_conv' bound_values_def)
  have rd: "row_read ?d (Some ?key) = row_get (bound_values r)"
    using row_read_staged [OF m] by simp
  have l: "load_session L sid ip ua now st =
      (Inr ?s,
       log_session_event L sid (user_id s) ''load'' ip ua [] now
         (st\<lparr>entropy := drop 16 (entropy st), db := ?d,
             session_cache := (session_cache st)(sid \<mapsto> ?s)\<rparr>))"
    using b found
    by (simp add: load_session_def miss salt hash f rd Let_def del: row_found_def)
  show "fst (load_session L sid ip ua now st) = Inr ?s"
    by (simp add: l)
  show "exists ?s"
    using b session_of_row_exists by auto
  show "session_cache (snd (load_session L sid ip ua now st)) sid = Some ?s"
    by (simp add: l log_session_event_def Let_def)
  show "log_queue (snd (load_session L sid ip ua now st))
      = log_queue st @
        [\<lparr>log_session_id = sid, log_user_id = user_id s, action = ''load'',
          log_ip_address = ip, log_user_agent = ua,
          timestamp = strftime_gmtime L now, details = []\<rparr>]"
    by (simp add: l log_session_event_def Let_def)
qed

text \<open>
  The stored session of the example: after a restart the right identifier, address and
  agent are answered with the default session when the entropy source yields a new salt,
  and with the stored session when it yields the stored salt again.
\<close>

lemma restarted_probe:
  "hash_with_salt demo_libs demo_sid (to_hex (take 16 (entropy restarted_server)))
   = Inr ''0707070707070707070707070707070730303031303230333034303530363037''"
  by code_simp

lemma replayed_probe:
  "hash_with_salt demo_libs demo_sid (to_hex (take 16 (entropy replayed_server)))
   = Inr ''202122232425262728292a2b2c2d2e2f30303031303230333034303530363037''"
  by code_simp

lemma demo_stored_digest:
  "hash_with_salt demo_libs demo_sid ''202122232425262728292a2b2c2d2e2f''
   = Inr ''202122232425262728292a2b2c2d2e2f30303031303230333034303530363037''"
  by code_simp

lemma demo_stored_salt: "to_hex (map word_of_nat [32..<48]) = ''202122232425262728292a2b2c2d2e2f''"
  by code_simp

lemma demo_row_decoded:
  "session_of_row demo_libs demo_sid
     (row_get (bound_values (session_row demo_session ''7b7c0c0d0a0b08090607040502030001'')))
   = Inr (demo_session\<lparr>refresh_token := []\<rparr>)"
  by code_simp

lemma demo_load_time: "timestamp_now demo_libs 1700000100 = ''2023-11-14 22:15:00''"
  by code_simp

lemma demo_rows:
  "tables (db restarted_server) ''sessions''
     = [session_row demo_session ''7b7c0c0d0a0b08090607040502030001'']
   \<and> tables (db replayed_server) ''sessions''
     = [session_row demo_session ''7b7c0c0d0a0b08090607040502030001'']
   \<and> pending_updates (db restarted_server) = []
   \<and> available (db replayed_server)
   \<and> session_cache restarted_server demo_sid = None
   \<and> session_cache replayed_server demo_sid = None"
  by (simp add: replayed_server_def restarted_server_def demo_server_def demo_database_def)

lemma demo_row_created:
  "created_row demo_libs (session_row demo_session ''7b7c0c0d0a0b08090607040502030001'')"
  unfolding created_row_def
proof (intro exI conjI)
  show "length (map word_of_nat [32..<48] :: byte list) = 16"
    by simp
  show "row_get (session_row demo_session ''7b7c0c0d0a0b08090607040502030001'') ''session_salt''
      = to_hex (map word_of_nat [32..<48])"
    by (simp only: demo_stored_salt) (simp add: row_get_def session_row_def demo_session_def)
  show "hash_with_salt demo_libs demo_sid (to_hex (map word_of_nat [32..<48]))
      = Inr (row_get (session_row demo_session ''7b7c0c0d0a0b08090607040502030001'')
               ''session_id_hash'')"
    by (simp only: demo_stored_salt demo_stored_digest)
       (simp add: row_get_def session_row_def demo_session_def)
qed

lemma demo_row_matches:
  "find (matching ''session_id_hash''
           ''202122232425262728292a2b2c2d2e2f30303031303230333034303530363037'')
     [session_row demo_session ''7b7c0c0d0a0b08090607040502030001'']
   = Some (session_row demo_session ''7b7c0c0d0a0b08090607040502030001'')"
  by (simp add: matching_def session_row_def demo_session_def)

lemma restarted_salt:
  "row_get (session_row demo_session ''7b7c0c0d0a0b08090607040502030001'') ''session_salt''
   \<noteq> to_hex (take 16 (entropy restarted_server))"
proof -
  have "to_hex (take 16 (entropy restarted_server)) = ''07070707070707070707070707070707''"
    by code_simp
  then show ?thesis
    by (simp add: row_get_def session_row_def demo_session_def)
qed

theorem load_session_cache_miss_counterexample:
  "session_cache replayed_server demo_sid = None
   \<and> salt_sensitive demo_libs
   \<and> fst (load_session demo_libs demo_sid ''10.0.0.1'' ''A'' 1700000100 replayed_server)
       = Inr (demo_session\<lparr>refresh_token := [], last_activity := ''2023-11-14 22:15:00''\<rparr>)
   \<and> exists (demo_session\<lparr>refresh_token := [], last_activity := ''2023-11-14 22:15:00''\<rparr>)"
proof -
  let ?row = "session_row demo_session ''7b7c0c0d0a0b08090607040502030001''"
  let ?probe = "''202122232425262728292a2b2c2d2e2f30303031303230333034303530363037''"
  let ?key = "pending_key ''sessions'' ''session_id_hash'' ?probe"
  let ?staged = "\<lparr>cols = bound_values ?row, table_name = ''sessions'',
                   where_column = ''session_id_hash'', where_value = ?probe\<rparr>"
  let ?d = "(db replayed_server)\<lparr>pending_updates := [(?key, ?staged)]\<rparr>"
  have ent: "16 \<le> length (entropy replayed_server)"
    by (simp add: replayed_server_def)
  have c: "c_str ?probe = ?probe"
    by (rule hash_with_salt_hex [OF demo_stored_digest])
  have f: "six_sql_find_by ''sessions'' ''session_id_hash'' ?probe (db replayed_server)
      = (Some ?key, ?d)"
    using find_by_match [of "db replayed_server" "''session_id_hash''" ?probe "''sessions''" ?row]
      demo_rows demo_row_matches
    by (simp add: c) (simp add: replayed_server_def restarted_server_def demo_server_def
        demo_database_def)
  have m: "map_of (pending_updates ?d) ?key = Some ?staged"
    by simp
  have found: "row_found ?d (Some ?key)"
    by (simp add: row_found_def bound_values_def session_row_def)
  have rd: "row_read ?d (Some ?key) = row_get (bound_values ?row)"
    using row_read_staged [OF m] by simp
  have x: "\<not> ''2023-11-14 23:13:20'' < ''2023-11-14 22:15:00''"
    by simp
  have "fst (load_session demo_libs demo_sid ''10.0.0.1'' ''A'' 1700000100 replayed_server)
       = Inr (demo_session\<lparr>refresh_token := [], last_activity := ''2023-11-14 22:15:00''\<rparr>)"
    using found x
    by (simp add: load_session_def demo_rows get_unique_salt_ok [OF ent] replayed_probe f rd
        demo_row_decoded demo_load_time Let_def del: row_found_def)
       (simp add: demo_session_def)
  then show ?thesis
    using demo_rows stub_salt_sensitive by (simp add: demo_session_def)
qed

theorem load_session_cache_miss_witness:
  "session_cache restarted_server demo_sid = None
   \<and> 16 \<le> length (entropy restarted_server)
   \<and> hash_with_salt demo_libs demo_sid (to_hex (take 16 (entropy restarted_server)))
       = Inr ''0707070707070707070707070707070730303031303230333034303530363037''
   \<and> salt_sensitive demo_libs
   \<and> list_all (\<lambda>r. created_row demo_libs r
          \<and> row_get r ''session_salt'' \<noteq> to_hex (take 16 (entropy restarted_server)))
        (tables (db restarted_server) ''sessions'')
   \<and> pending_updates (db restarted_server) = []
   \<and> ip_address demo_session = ''10.0.0.1'' \<and> user_agent demo_session = ''A''
   \<and> load_session demo_libs demo_sid ''10.0.0.1'' ''A'' 1700000100 restarted_server
       = (Inr Session_default,
          restarted_server\<lparr>entropy := drop 16 (entropy restarted_server)\<rparr>)
   \<and> session_cache replayed_server demo_sid = None
   \<and> 16 \<le> length (entropy replayed_server)
   \<and> available (db replayed_server)
   \<and> find (matching ''session_id_hash''
             ''202122232425262728292a2b2c2d2e2f30303031303230333034303530363037'')
        (tables (db replayed_server) ''sessions'')
       = Some (session_row demo_session ''7b7c0c0d0a0b08090607040502030001'')
   \<and> session_cache
        (snd (load_session demo_libs demo_sid ''10.0.0.1'' ''A'' 1700000100 replayed_server))
        demo_sid
       = Some (demo_session\<lparr>refresh_token := [], last_activity := ''2023-11-14 22:15:00''\<rparr>)"
proof -
  let ?row = "session_row demo_session ''7b7c0c0d0a0b08090607040502030001''"
  have ent: "16 \<le> length (entropy restarted_server)"
    by (simp add: restarted_server_def demo_server_def)
  have ent': "16 \<le> length (entropy replayed_server)"
    by (simp add: replayed_server_def)
  have miss: "session_cache restarted_server demo_sid = None"
    and miss': "session_cache replayed_server demo_sid = None"
    using demo_rows by simp_all
  have stored: "\<forall>r\<in>set (tables (db restarted_server) ''sessions'').
      created_row demo_libs r
      \<and> row_get r ''session_salt'' \<noteq> to_hex (take 16 (entropy restarted_server))"
    using demo_row_created restarted_salt by (simp add: demo_rows)
  have staged: "\<forall>(k, x)\<in>set (pending_updates (db restarted_server)).
      \<forall>v. k = pending_key ''sessions'' ''session_id_hash'' v \<longrightarrow>
        created_row demo_libs (cols x) \<and> row_get (cols x) ''session_id_hash'' = v
        \<and> row_get (cols x) ''session_salt'' \<noteq> to_hex (take 16 (entropy restarted_server))"
    by (simp add: demo_rows)
  have x: "\<not> expires_at (demo_session\<lparr>refresh_token := []\<rparr>) < timestamp_now demo_libs 1700000100"
    by (simp add: demo_load_time demo_session_def)
  have b: "ip_address (demo_session\<lparr>refresh_token := []\<rparr>) = ''10.0.0.1''
      \<and> user_agent (demo_session\<lparr>refresh_token := []\<rparr>) = ''A''"
    by (simp add: demo_session_def)
  have fnd: "find (matching ''session_id_hash''
             ''202122232425262728292a2b2c2d2e2f30303031303230333034303530363037'')
        (tables (db replayed_server) ''sessions'') = Some ?row"
    using demo_row_matches by (simp add: demo_rows)
  note fresh = load_session_cache_miss [OF miss ent restarted_probe,
      where ip = "''10.0.0.1''" and ua = "''A''" and now = 1700000100 and r = ?row
        and s = "demo_session\<lparr>refresh_token := []\<rparr>"]
  note replayed = load_session_cache_miss [OF miss' ent' replayed_probe,
      where ip = "''10.0.0.1''" and ua = "''A''" and now = 1700000100 and r = ?row
        and s = "demo_session\<lparr>refresh_token := []\<rparr>"]
  have absent: "load_session demo_libs demo_sid ''10.0.0.1'' ''A'' 1700000100 restarted_server
      = (Inr Session_default,
         restarted_server\<lparr>entropy := drop 16 (entropy restarted_server)\<rparr>)"
    using fresh stub_salt_sensitive stored staged by blast
  have av: "available (db replayed_server)"
    using demo_rows by simp
  have "session_cache
        (snd (load_session demo_libs demo_sid ''10.0.0.1'' ''A'' 1700000100 replayed_server))
        demo_sid
      = Some (demo_session\<lparr>refresh_token := []\<rparr>
               \<lparr>last_activity := timestamp_now demo_libs 1700000100,
                last_activity_ip := ''10.0.0.1''\<rparr>)"
    using replayed av fnd demo_row_decoded b x by blast
  then have present: "session_cache
        (snd (load_session demo_libs demo_sid ''10.0.0.1'' ''A'' 1700000100 replayed_server))
        demo_sid
      = Some (demo_session\<lparr>refresh_token := [], last_activity := ''2023-11-14 22:15:00''\<rparr>)"
    by (simp add: demo_load_time demo_session_def)
  have st: "list_all (\<lambda>r. created_row demo_libs r
          \<and> row_get r ''session_salt'' \<noteq> to_hex (take 16 (entropy restarted_server)))
        (tables (db restarted_server) ''sessions'')"
    using stored by (simp only: list_all_iff)
  have pe: "pending_updates (db restarted_server) = []"
    using demo_rows by simp
  from miss ent restarted_probe stub_salt_sensitive st pe demo_binding absent miss' ent' av fnd
    present
  show ?thesis by blast
qed
section \<open>Destroying a session\<close>

lemma c_str_idem [simp]: "c_str (c_str v) = c_str v"
  by (simp add: c_str_def takeWhile_idem)

lemma c_str_Nil [simp]: "c_str [] = []"
  by (simp add: c_str_def)

lemma keyed_iff:
  "keyed r \<longleftrightarrow> (\<forall>pair\<in>set r. fst pair = ''session_id_hash'' \<longrightarrow> c_str (snd pair) \<noteq> [])"
  by (auto simp: keyed_def bound_values_def image_iff prod_eq_iff)

lemma keyed_bound_values [simp]: "keyed (bound_values r) = keyed r"
  by (auto simp: keyed_iff bound_values_def)

lemma keyed_not_matching:
  assumes "keyed r"
  shows "\<not> matching ''session_id_hash'' [] r"
proof
  assume "matching ''session_id_hash'' [] r"
  then have "(''session_id_hash'', []) \<in> set r"
    by (simp add: matching_def map_of_SomeD)
  with assms show False
    by (force simp: keyed_iff)
qed

lemma keyed_update:
  "keyed r \<Longrightarrow> (k = ''session_id_hash'' \<longrightarrow> c_str v \<noteq> []) \<Longrightarrow> keyed (AList.update k v r)"
  unfolding keyed_iff by (induction r) (auto split: if_splits)

lemma keyed_fold_update:
  "keyed x \<Longrightarrow> keyed changed \<Longrightarrow>
   keyed (fold (\<lambda>pair. AList.update (fst pair) (c_str (snd pair))) changed x)"
proof (induction changed arbitrary: x)
  case Nil
  then show ?case by simp
next
  case (Cons p ps)
  have "keyed (AList.update (fst p) (c_str (snd p)) x)"
    using Cons.prems by (intro keyed_update) (auto simp: keyed_iff)
  moreover have "keyed ps"
    using Cons.prems by (simp add: keyed_iff)
  ultimately show ?case using Cons.IH by simp
qed

lemma list_all_update:
  "list_all P al \<Longrightarrow> P (k, v) \<Longrightarrow> list_all P (AList.update k v al)"
  by (induction al) auto

lemma pending_key_inject [simp]: "pending_key t c v = pending_key t c w \<longleftrightarrow> v = w"
  by (simp add: pending_key_def)

lemma commit_row_keyed:
  assumes "list_all keyed (tbls ''sessions'')"
      and "table_name r = ''sessions'' \<longrightarrow> keyed (cols r)"
  shows "list_all keyed (commit_row r tbls ''sessions'')"
proof (cases "table_name r = ''sessions''")
  case False
  with assms(1) show ?thesis by (simp add: commit_row_def Let_def)
next
  case True
  with assms(2) have k: "keyed (cols r)" by simp
  define db_row where "db_row = (case find (matching (where_column r) (c_str (where_value r)))
      (tbls (table_name r)) of None \<Rightarrow> [] | Some x \<Rightarrow> bound_values x)"
  define changed where "changed = filter (\<lambda>pair. row_get db_row (fst pair) \<noteq> snd pair) (cols r)"
  have c: "keyed changed"
    using k by (simp add: changed_def keyed_iff)
  have f: "\<And>x. keyed x \<Longrightarrow>
      keyed (fold (\<lambda>pair. AList.update (fst pair) (c_str (snd pair))) changed x)"
    by (rule keyed_fold_update [OF _ c])
  have eq: "commit_row r tbls ''sessions'' =
      (if changed = [] then tbls ''sessions''
       else map (\<lambda>x. if matching (where_column r) (c_str (where_value r)) x
                       then fold (\<lambda>pair. AList.update (fst pair) (c_str (snd pair))) changed x
                       else x) (tbls ''sessions''))"
    using True by (simp add: commit_row_def Let_def db_row_def changed_def)
  show ?thesis
    unfolding eq using assms(1) f by (auto simp: list_all_iff)
qed

lemma fold_commit_row_keyed:
  "list_all keyed (tbls ''sessions'') \<Longrightarrow>
   list_all (\<lambda>r. table_name r = ''sessions'' \<longrightarrow> keyed (cols r)) rs \<Longrightarrow>
   list_all keyed (fold commit_row rs tbls ''sessions'')"
proof (induction rs arbitrary: tbls)
  case Nil
  then show ?case by simp
next
  case (Cons r rs)
  from Cons.prems have "list_all keyed (commit_row r tbls ''sessions'')"
    by (intro commit_row_keyed) simp_all
  from Cons.IH [of "commit_row r tbls"] this Cons.prems show ?case by simp
qed

lemma commit_keyed: "sessions_keyed d \<Longrightarrow> sessions_keyed (six_sql_commit d)"
proof -
  assume k: "sessions_keyed d"
  have "list_all (\<lambda>r. table_name r = ''sessions'' \<longrightarrow> keyed (cols r))
          (map snd (sort_key fst (pending_updates d)))"
    using k by (simp add: sessions_keyed_def list_all_iff)
  with k have "list_all keyed
      (fold commit_row (map snd (sort_key fst (pending_updates d))) (tables d) ''sessions'')"
    by (intro fold_commit_row_keyed) (simp_all add: sessions_keyed_def)
  with k show ?thesis by (simp add: six_sql_commit_def sessions_keyed_def)
qed

lemma find_by_keyed:
  assumes "sessions_keyed d"
  shows "sessions_keyed (snd (six_sql_find_by ''sessions'' ''session_id_hash'' v d))"
proof (cases "available d \<and> find (matching ''session_id_hash'' (c_str v)) (tables d ''sessions'') \<noteq> None")
  case False
  with assms show ?thesis by (auto simp: six_sql_find_by_def Let_def)
next
  case True
  then obtain result where
    f: "find (matching ''session_id_hash'' (c_str v)) (tables d ''sessions'') = Some result"
    by auto
  then have m: "matching ''session_id_hash'' (c_str v) result" and r: "result \<in> set (tables d ''sessions'')"
    by (auto simp: find_Some_iff)
  from r assms have kr: "keyed result"
    by (simp add: sessions_keyed_def list_all_iff)
  with m have ne: "c_str v \<noteq> []"
    using keyed_not_matching by auto
  let ?row = "\<lparr>cols = bound_values result, table_name = ''sessions'',
      where_column = ''session_id_hash'', where_value = c_str v\<rparr>"
  let ?key = "pending_key ''sessions'' ''session_id_hash'' (c_str v)"
  have d': "snd (six_sql_find_by ''sessions'' ''session_id_hash'' v d)
      = d\<lparr>pending_updates := AList.update ?key ?row (pending_updates d)\<rparr>"
    using True f by (simp add: six_sql_find_by_def Let_def)
  have "list_all (\<lambda>p. table_name (snd p) = ''sessions'' \<longrightarrow> keyed (cols (snd p)))
      (AList.update ?key ?row (pending_updates d))"
    using assms kr by (intro list_all_update) (simp_all add: sessions_keyed_def)
  moreover have "map_of (AList.update ?key ?row (pending_updates d))
      (pending_key ''sessions'' ''session_id_hash'' []) = None"
    using assms ne by (simp add: update_conv' sessions_keyed_def)
  ultimately show ?thesis
    using assms by (simp add: d' sessions_keyed_def)
qed

lemma row_write_keyed:
  assumes "sessions_keyed d" and "column = ''session_id_hash'' \<longrightarrow> c_str v \<noteq> []"
  shows "sessions_keyed (row_write ref column v d)"
proof (cases "\<exists>key r. ref = Some key \<and> map_of (pending_updates d) key = Some r")
  case False
  with assms show ?thesis by (auto simp: row_write_def split: option.splits)
next
  case True
  then obtain key r where ref: "ref = Some key" and r: "map_of (pending_updates d) key = Some r"
    by auto
  then have mem: "(key, r) \<in> set (pending_updates d)"
    by (simp add: map_of_SomeD)
  let ?r = "r\<lparr>cols := AList.update column v (cols r)\<rparr>"
  have w: "row_write ref column v d
      = d\<lparr>pending_updates := AList.update key ?r (pending_updates d)\<rparr>"
    by (simp add: row_write_def ref r)
  have "table_name r = ''sessions'' \<longrightarrow> keyed (cols r)"
    using assms(1) mem by (auto simp: sessions_keyed_def list_all_iff)
  then have "table_name ?r = ''sessions'' \<longrightarrow> keyed (cols ?r)"
    using assms(2) by (simp add: keyed_update)
  then have "list_all (\<lambda>p. table_name (snd p) = ''sessions'' \<longrightarrow> keyed (cols (snd p)))
      (AList.update key ?r (pending_updates d))"
    using assms(1) by (intro list_all_update) (simp_all add: sessions_keyed_def)
  moreover have "key \<noteq> pending_key ''sessions'' ''session_id_hash'' []"
    using assms(1) r by (auto simp: sessions_keyed_def)
  then have "map_of (AList.update key ?r (pending_updates d))
      (pending_key ''sessions'' ''session_id_hash'' []) = None"
    using assms(1) by (simp add: update_conv' sessions_keyed_def)
  ultimately show ?thesis
    using assms(1) by (simp add: w sessions_keyed_def)
qed

lemma insert_keyed:
  assumes "sessions_keyed d" and "table = ''sessions'' \<longrightarrow> keyed new_row"
  shows "sessions_keyed (six_sql_insert table new_row d)"
  using assms by (auto simp: six_sql_insert_def sessions_keyed_def)

lemma log_session_event_keyed:
  "sessions_keyed (db st) \<Longrightarrow> sessions_keyed (db (log_session_event L sid uid act ip ua dets now st))"
  by (simp add: log_session_event_def Let_def write_audit_log_to_db_def insert_keyed)

lemma log_session_event_cache [simp]:
  "session_cache (log_session_event L sid uid act ip ua dets now st) = session_cache st"
  by (simp add: log_session_event_def Let_def)

lemma destroy_session_keyed:
  assumes "sessions_keyed (db st)"
  shows "sessions_keyed (db (destroy_session L sid now st))"
proof -
  define s where "s = (case session_cache st sid of Some cached \<Rightarrow> cached | None \<Rightarrow> Session_default)"
  obtain row d where f: "six_sql_find_by ''sessions'' ''session_id_hash'' (session_id_hash s) (db st) = (row, d)"
    by (cases "six_sql_find_by ''sessions'' ''session_id_hash'' (session_id_hash s) (db st)")
  have kd: "sessions_keyed d"
    using find_by_keyed [OF assms, of "session_id_hash s"] by (simp add: f)
  have "sessions_keyed (six_sql_commit (row_write row ''is_valid'' ''0'' d))"
    by (intro commit_keyed row_write_keyed kd) simp
  with kd show ?thesis
    by (simp add: destroy_session_def Let_def s_def [symmetric] f log_session_event_keyed)
qed

lemma destroy_session_cache:
  "session_cache (destroy_session L sid now st) sid = None"
  by (simp add: destroy_session_def Let_def split: prod.splits)

lemma destroy_session_unknown:
  assumes "sessions_keyed (db st)" and "session_cache st sid = None"
  shows "destroy_session L sid now st = st"
proof -
  have "list_all (\<lambda>r. \<not> matching ''session_id_hash'' (c_str []) r) (tables (db st) ''sessions'')"
    using assms(1) by (auto simp: sessions_keyed_def list_all_iff keyed_not_matching)
  moreover have "map_of (pending_updates (db st))
      (pending_key ''sessions'' ''session_id_hash'' (c_str [])) = None"
    using assms(1) by (simp add: sessions_keyed_def)
  ultimately have f: "six_sql_find_by ''sessions'' ''session_id_hash'' [] (db st) = (None, db st)"
    by (rule find_by_no_match)
  have "(session_cache st)(sid := None) = session_cache st"
    using assms(2) by (simp add: fun_upd_idem_iff)
  then show ?thesis
    by (simp add: destroy_session_def Let_def assms(2) Session_default_def f)
qed

text \<open>
  Claim C8. On a database whose \<^verbatim>\<open>sessions\<close> rows all carry a digest (as every row
  written by this program does), destroying an identifier that is not cached changes
  nothing: the cache, the tables, the staged rows and the audit queue are as before, and
  no error is raised. Destroying any identifier twice leaves the state that destroying it
  once leaves.
\<close>

theorem destroy_session_idempotent:
  assumes "sessions_keyed (db st)"
  shows "(session_cache st sid = None \<longrightarrow> destroy_session L sid now st = st)
       \<and> destroy_session L sid later (destroy_session L sid now st) = destroy_session L sid now st"
  using assms destroy_session_unknown [OF assms]
    destroy_session_unknown [OF destroy_session_keyed [OF assms] destroy_session_cache]
  by simp

lemma demo_keyed: "sessions_keyed (db demo_server)"
  by (simp add: sessions_keyed_def demo_server_def demo_database_def keyed_iff session_row_def
      demo_session_def c_str_def)

theorem destroy_session_idempotent_witness:
  "sessions_keyed (db demo_server)
   \<and> session_cache demo_server ''ffff'' = None
   \<and> destroy_session demo_libs ''ffff'' 1700000100 demo_server = demo_server
   \<and> destroy_session demo_libs demo_sid 1700000200
        (destroy_session demo_libs demo_sid 1700000100 demo_server)
       = destroy_session demo_libs demo_sid 1700000100 demo_server"
proof -
  have m: "session_cache demo_server ''ffff'' = None"
    by (simp add: demo_server_def demo_sid_def)
  from destroy_session_idempotent [OF demo_keyed, of "''ffff''" demo_libs 1700000100 1700000200]
    destroy_session_idempotent [OF demo_keyed, of demo_sid demo_libs 1700000100 1700000200]
    m demo_keyed
  show ?thesis by simp
qed

section \<open>Every operation keeps the sessions table well-formed\<close>

lemma hash_with_salt_nonempty: "hash_with_salt L d salt = Inr h \<Longrightarrow> c_str h \<noteq> []"
proof -
  assume h: "hash_with_salt L d salt = Inr h"
  then obtain bs where "h = to_hex (take 32 (bs @ replicate 32 0))"
    by (auto simp: hash_with_salt_def split: option.splits sum.splits)
  then have "length h = 64"
    by (simp add: length_to_hex)
  then have "h \<noteq> []" by auto
  then show ?thesis by (simp add: hash_with_salt_hex [OF h])
qed

lemma keyed_session_row: "c_str (session_id_hash s) \<noteq> [] \<Longrightarrow> keyed (session_row s e)"
  by (simp add: keyed_iff session_row_def)

lemma store_new_session_keyed:
  "store_new_session L uid ip ua now sid salt sid_hash rtoken rtoken_hash st = (s, st') \<Longrightarrow>
   sessions_keyed (db st) \<Longrightarrow> c_str sid_hash \<noteq> [] \<Longrightarrow> sessions_keyed (db st')"
  by (auto simp: store_new_session_def Let_def log_session_event_keyed insert_keyed
      keyed_session_row)

lemma random_db [simp]:
  "db (snd (generate_secure_random_bytes n st)) = db st"
  "db (snd (generate_random_salt n st)) = db st"
  by (simp_all add: generate_secure_random_bytes_def generate_random_salt_def split: option.splits)

lemma create_session_keyed:
  assumes "sessions_keyed (db st)"
  shows "sessions_keyed (db (snd (create_session L uid ip ua now st)))"
proof -
  have r1: "\<And>n st r st'. generate_secure_random_bytes n st = (r, st') \<Longrightarrow> db st' = db st"
    using random_db(1) by (metis snd_conv)
  have r2: "\<And>st r st'. get_unique_salt st = (r, st') \<Longrightarrow> db st' = db st"
    unfolding get_unique_salt_def using random_db(2) by (metis snd_conv)
  have r3: "\<And>st r st'. generate_session_id st = (r, st') \<Longrightarrow> db st' = db st"
    unfolding generate_session_id_def using random_db(1) by (metis snd_conv)
  show ?thesis
    using assms
    by (auto simp: create_session_def Let_def split: prod.splits sum.splits
        dest!: r1 r2 r3 elim!: store_new_session_keyed dest: hash_with_salt_nonempty)
qed

lemma detect_hijack_keyed:
  "sessions_keyed (db st) \<Longrightarrow> sessions_keyed (db (detect_hijack_attempt L sid ip now st))"
  by (simp add: detect_hijack_attempt_def log_session_event_keyed)

lemma load_session_keyed:
  assumes "sessions_keyed (db st)"
  shows "sessions_keyed (db (snd (load_session L sid ip ua now st)))"
proof (cases "session_cache st sid")
  case (Some s)
  with assms show ?thesis
    by (simp add: load_session_hit detect_hijack_keyed)
next
  case None
  have r: "\<And>r st'. get_unique_salt st = (r, st') \<Longrightarrow> db st' = db st"
    unfolding get_unique_salt_def using random_db(2) by (metis snd_conv)
  have f: "\<And>v row d. six_sql_find_by ''sessions'' ''session_id_hash'' v (db st) = (row, d)
      \<Longrightarrow> sessions_keyed d"
    using find_by_keyed [OF assms] by (metis snd_conv)
  show ?thesis
    using assms None
    by (auto simp: load_session_def Let_def split: prod.splits sum.splits
        dest!: r f intro!: detect_hijack_keyed log_session_event_keyed)
qed

lemma save_session_keyed:
  assumes "sessions_keyed (db st)"
  shows "sessions_keyed (db (save_session L s now st))"
proof -
  obtain row d where f: "six_sql_find_by ''sessions'' ''session_id_hash'' (session_id_hash s) (db st) = (row, d)"
    by (cases "six_sql_find_by ''sessions'' ''session_id_hash'' (session_id_hash s) (db st)")
  have kd: "sessions_keyed d"
    using find_by_keyed [OF assms, of "session_id_hash s"] by (simp add: f)
  have "sessions_keyed (six_sql_commit
      (row_write row ''is_valid'' (if is_valid s then ''1'' else ''0'')
        (row_write row ''last_activity'' (timestamp_now L now)
          (row_write row ''updated_at'' (timestamp_now L now)
            (row_write row ''data_encrypted'' (encrypt_session_data (aes_256_encrypt L) (data s))
              (row_write row ''user_id'' (to_string (user_id s)) d))))))"
    by (intro commit_keyed row_write_keyed kd) simp_all
  with kd show ?thesis
    by (simp add: save_session_def Let_def f)
qed

lemma exec_keyed: "sessions_keyed d \<Longrightarrow> sessions_keyed (six_sql_exec stmt d)"
  by (cases stmt) (auto simp: sessions_keyed_def list_all_iff keyed_update)

lemma revoke_all_keyed:
  "sessions_keyed (db st) \<Longrightarrow> sessions_keyed (db (revoke_all_user_sessions L uid reason now st))"
  by (simp add: revoke_all_user_sessions_def Let_def log_session_event_keyed exec_keyed
      del: six_sql_exec.simps)

lemma refresh_session_keyed:
  assumes "sessions_keyed (db st)"
  shows "sessions_keyed (db (snd (refresh_session L sid rtoken ip ua now st)))"
proof -
  have l: "\<And>r st'. load_session L sid ip ua now st = (r, st') \<Longrightarrow> sessions_keyed (db st')"
    using load_session_keyed [OF assms] by (metis snd_conv)
  have r: "\<And>st r st'. get_unique_salt st = (r, st') \<Longrightarrow> db st' = db st"
    unfolding get_unique_salt_def using random_db(2) by (metis snd_conv)
  have c: "\<And>st u r st'. create_session L u ip ua now st = (r, st') \<Longrightarrow> sessions_keyed (db st)
      \<Longrightarrow> sessions_keyed (db st')"
    using create_session_keyed by (metis snd_conv)
  show ?thesis
    by (auto simp: refresh_session_def Let_def log_session_event_keyed
        split: prod.splits sum.splits dest!: l r dest: c)
qed

lemma empty_database_keyed:
  "sessions_keyed \<lparr>tables = (\<lambda>t. []), available = a, pending_updates = []\<rparr>"
  by (simp add: sessions_keyed_def)

section \<open>Refreshing a session\<close>

lemma create_session_throttled:
  "fst (is_rate_limited ip now (ip_attempts st)) \<Longrightarrow>
   fst (create_session L uid ip ua now st)
     = Inl (Runtime_error ''Too many login attempts. Try again later.'')"
  by (cases "is_rate_limited ip now (ip_attempts st)") (simp add: create_session_def)

lemma create_session_not_throttled:
  "fst (create_session L uid ip ua now st) = Inr n \<Longrightarrow>
   \<not> fst (is_rate_limited ip now (ip_attempts st))"
  by (cases "is_rate_limited ip now (ip_attempts st)")
     (auto simp: create_session_def split: if_splits)

lemma refresh_session_steps:
  assumes load: "load_session L sid ip ua now st = (Inr s, st1)"
  defines "st2 \<equiv> st1\<lparr>entropy := drop 16 (entropy st1)\<rparr>"
  shows "\<not> exists s \<Longrightarrow>
           refresh_session L sid tok ip ua now st =
             (Inl (Runtime_error ''Invalid session''),
              st1\<lparr>ip_attempts := record_failed_attempt ip now (ip_attempts st1)\<rparr>)"
    and "exists s \<Longrightarrow> 16 \<le> length (entropy st1) \<Longrightarrow>
         hash_with_salt L tok (to_hex (take 16 (entropy st1))) = Inr h \<Longrightarrow>
           refresh_session L sid tok ip ua now st =
             (if h \<noteq> refresh_token_hash s
              then (Inl (Runtime_error ''Invalid refresh token''),
                    st2\<lparr>ip_attempts := record_failed_attempt ip now (ip_attempts st2)\<rparr>)
              else if refresh_expires_at s < timestamp_now L now
              then (Inl (Runtime_error ''Refresh token expired''), st2)
              else (case create_session L (user_id s) ip ua now st2 of
                      (Inl e, st3) \<Rightarrow> (Inl e, st3)
                    | (Inr new_session, st3) \<Rightarrow>
                        (Inr new_session,
                         log_session_event L sid (user_id s) ''refresh'' ip ua
                           ''Session refreshed with new ID'' now st3)))"
  by (simp_all add: refresh_session_def load get_unique_salt_ok st2_def)

lemma refresh_session_success:
  assumes "fst (refresh_session L sid tok ip ua now st) = Inr n"
  shows "\<exists>s st1 h. load_session L sid ip ua now st = (Inr s, st1) \<and> exists s
           \<and> 16 \<le> length (entropy st1)
           \<and> hash_with_salt L tok (to_hex (take 16 (entropy st1))) = Inr h
           \<and> h = refresh_token_hash s
           \<and> \<not> refresh_expires_at s < timestamp_now L now
           \<and> fst (create_session L (user_id s) ip ua now (st1\<lparr>entropy := drop 16 (entropy st1)\<rparr>))
               = Inr n"
  using assms
  by (auto simp: refresh_session_def get_unique_salt_def generate_random_salt_def RAND_bytes_def
      split: prod.splits sum.splits if_splits option.splits)

lemma refresh_session_throttled:
  assumes "load_session L sid ip ua now st = (Inr s, st1)" and "exists s"
      and "16 \<le> length (entropy st1)"
      and "hash_with_salt L tok (to_hex (take 16 (entropy st1))) = Inr (refresh_token_hash s)"
      and "\<not> refresh_expires_at s < timestamp_now L now"
      and "fst (is_rate_limited ip now (ip_attempts st1))"
  shows "fst (refresh_session L sid tok ip ua now st) =
           Inl (Runtime_error ''Too many login attempts. Try again later.'')"
  using create_session_throttled
      [of ip now "st1\<lparr>entropy := drop 16 (entropy st1)\<rparr>" L "user_id s" ua] assms(5,6)
  by (cases "create_session L (user_id s) ip ua now (st1\<lparr>entropy := drop 16 (entropy st1)\<rparr>)")
     (auto simp: refresh_session_steps(2) [OF assms(1-4)] split: sum.splits)

text \<open>
  Claim C3, amended. \<open>refresh_session\<close> fails with the error of \<open>load_session\<close> when
  that throws; with \<^verbatim>\<open>Invalid session\<close>, after recording a failed attempt, when the load
  returns an absent session; with \<^verbatim>\<open>Failed to generate salt\<close> when the entropy source
  cannot supply the salt; with \<^verbatim>\<open>Invalid refresh token\<close>, after recording a failed
  attempt, when the digest of the presented token under the fresh salt differs from the
  stored one; with \<^verbatim>\<open>Refresh token expired\<close> when the current timestamp is past
  \<open>refresh_expires_at\<close>; and otherwise with whatever error \<open>create_session\<close> ends in,
  which is the throttling error when the caller's address is rate-limited. It returns a
  new session only when none of these holds, and that session is the one
  \<open>create_session\<close> made.
\<close>

theorem refresh_session_outcome:
  "(load_session L sid ip ua now st = (Inl e, st1)
      \<longrightarrow> refresh_session L sid tok ip ua now st = (Inl e, st1))
   \<and> (load_session L sid ip ua now st = (Inr s, st1) \<and> \<not> exists s
      \<longrightarrow> refresh_session L sid tok ip ua now st =
            (Inl (Runtime_error ''Invalid session''),
             st1\<lparr>ip_attempts := record_failed_attempt ip now (ip_attempts st1)\<rparr>))
   \<and> (load_session L sid ip ua now st = (Inr s, st1) \<and> exists s
        \<and> length (entropy st1) < 16
      \<longrightarrow> refresh_session L sid tok ip ua now st =
            (Inl (Runtime_error ''Failed to generate salt''), st1))
   \<and> (load_session L sid ip ua now st = (Inr s, st1) \<and> exists s
        \<and> 16 \<le> length (entropy st1)
        \<and> hash_with_salt L tok (to_hex (take 16 (entropy st1))) = Inr h
        \<and> h \<noteq> refresh_token_hash s
      \<longrightarrow> refresh_session L sid tok ip ua now st =
            (Inl (Runtime_error ''Invalid refresh token''),
             st1\<lparr>entropy := drop 16 (entropy st1),
                 ip_attempts := record_failed_attempt ip now (ip_attempts st1)\<rparr>))
   \<and> (load_session L sid ip ua now st = (Inr s, st1) \<and> exists s
        \<and> 16 \<le> length (entropy st1)
        \<and> hash_with_salt L tok (to_hex (take 16 (entropy st1))) = Inr (refresh_token_hash s)
        \<and> refresh_expires_at s < timestamp_now L now
      \<longrightarrow> refresh_session L sid tok ip ua now st =
            (Inl (Runtime_error ''Refresh token expired''),
             st1\<lparr>entropy := drop 16 (entropy st1)\<rparr>))
   \<and> (load_session L sid ip ua now st = (Inr s, st1) \<and> exists s
        \<and> 16 \<le> length (entropy st1)
        \<and> hash_with_salt L tok (to_hex (take 16 (entropy st1))) = Inr (refresh_token_hash s)
        \<and> \<not> refresh_expires_at s < timestamp_now L now
      \<longrightarrow> refresh_session L sid tok ip ua now st =
            (case create_session L (user_id s) ip ua now (st1\<lparr>entropy := drop 16 (entropy st1)\<rparr>) of
               (Inl e, st3) \<Rightarrow> (Inl e, st3)
             | (Inr new_session, st3) \<Rightarrow>
                 (Inr new_session,
                  log_session_event L sid (user_id s) ''refresh'' ip ua
                    ''Session refreshed with new ID'' now st3))
        \<and> (fst (is_rate_limited ip now (ip_attempts st1))
            \<longrightarrow> fst (refresh_session L sid tok ip ua now st) =
                  Inl (Runtime_error ''Too many login attempts. Try again later.'')))
   \<and> (fst (refresh_session L sid tok ip ua now st) = Inr n
      \<longrightarrow> (\<exists>s st1.
            load_session L sid ip ua now st = (Inr s, st1) \<and> exists s
            \<and> hash_with_salt L tok (to_hex (take 16 (entropy st1))) = Inr (refresh_token_hash s)
            \<and> \<not> refresh_expires_at s < timestamp_now L now
            \<and> \<not> fst (is_rate_limited ip now (ip_attempts st1))
            \<and> fst (create_session L (user_id s) ip ua now (st1\<lparr>entropy := drop 16 (entropy st1)\<rparr>))
                = Inr n))"
proof -
  have a: "load_session L sid ip ua now st = (Inl e, st1)
      \<Longrightarrow> refresh_session L sid tok ip ua now st = (Inl e, st1)"
    by (simp add: refresh_session_def)
  have b: "load_session L sid ip ua now st = (Inr s, st1) \<Longrightarrow> exists s \<Longrightarrow>
      length (entropy st1) < 16 \<Longrightarrow>
      refresh_session L sid tok ip ua now st = (Inl (Runtime_error ''Failed to generate salt''), st1)"
    by (simp add: refresh_session_def get_unique_salt_def generate_random_salt_def RAND_bytes_def)
  have c: "load_session L sid ip ua now st = (Inr s, st1) \<Longrightarrow> exists s \<Longrightarrow>
      16 \<le> length (entropy st1) \<Longrightarrow>
      hash_with_salt L tok (to_hex (take 16 (entropy st1))) = Inr (refresh_token_hash s) \<Longrightarrow>
      \<not> refresh_expires_at s < timestamp_now L now \<Longrightarrow>
      fst (is_rate_limited ip now (ip_attempts st1)) \<Longrightarrow>
      fst (refresh_session L sid tok ip ua now st) =
        Inl (Runtime_error ''Too many login attempts. Try again later.'')"
    by (rule refresh_session_throttled)
  have d: "fst (refresh_session L sid tok ip ua now st) = Inr n
      \<Longrightarrow> (\<exists>s st1.
            load_session L sid ip ua now st = (Inr s, st1) \<and> exists s
            \<and> hash_with_salt L tok (to_hex (take 16 (entropy st1))) = Inr (refresh_token_hash s)
            \<and> \<not> refresh_expires_at s < timestamp_now L now
            \<and> \<not> fst (is_rate_limited ip now (ip_attempts st1))
            \<and> fst (create_session L (user_id s) ip ua now (st1\<lparr>entropy := drop 16 (entropy st1)\<rparr>))
                = Inr n)"
  proof -
    assume "fst (refresh_session L sid tok ip ua now st) = Inr n"
    from refresh_session_success [OF this] obtain s st1 where
      f: "load_session L sid ip ua now st = (Inr s, st1)" "exists s"
         "hash_with_salt L tok (to_hex (take 16 (entropy st1))) = Inr (refresh_token_hash s)"
         "\<not> refresh_expires_at s < timestamp_now L now"
         "fst (create_session L (user_id s) ip ua now (st1\<lparr>entropy := drop 16 (entropy st1)\<rparr>))
            = Inr n"
      by auto
    from create_session_not_throttled [OF f(5)]
    have "\<not> fst (is_rate_limited ip now (ip_attempts st1))" by simp
    with f show ?thesis by blast
  qed
  show ?thesis
    using a b c d
    by (simp add: refresh_session_steps)
qed


lemma throttled_cached: "session_cache throttled_server demo_sid = Some demo_session"
  by (simp add: throttled_server_def demo_server_def)

lemma throttled_entropy: "16 \<le> length (entropy throttled_server)"
  by (simp add: throttled_server_def)

lemma throttled_limited:
  "fst (is_rate_limited ''10.0.0.1'' 1700000100 (ip_attempts throttled_server))"
  by (simp add: rate_limited_iff throttled_server_def entry_at_def MAX_ATTEMPTS_def)

lemma demo_refresh_now: "timestamp_now demo_libs 1700000100 = ''2023-11-14 22:15:00''"
  by code_simp

lemma throttled_load:
  "load_session demo_libs demo_sid ''10.0.0.1'' ''A'' 1700000100 throttled_server
     = (Inr demo_session, throttled_server)"
  by (simp add: load_session_hit [OF throttled_cached] demo_binding demo_refresh_now demo_expires)

lemma throttled_digest:
  "hash_with_salt demo_libs (refresh_token demo_session)
     (to_hex (take 16 (entropy throttled_server))) = Inr (refresh_token_hash demo_session)"
  by code_simp

lemma demo_refresh_valid:
  "\<not> refresh_expires_at demo_session < timestamp_now demo_libs 1700000100"
  by (simp add: demo_refresh_now demo_session_def)

theorem refresh_session_outcome_counterexample:
  "fst (load_session demo_libs demo_sid ''10.0.0.1'' ''A'' 1700000100 throttled_server)
     = Inr demo_session
   \<and> exists demo_session
   \<and> hash_with_salt demo_libs (refresh_token demo_session)
        (to_hex (take 16 (entropy throttled_server))) = Inr (refresh_token_hash demo_session)
   \<and> \<not> refresh_expires_at demo_session < timestamp_now demo_libs 1700000100
   \<and> fst (refresh_session demo_libs demo_sid (refresh_token demo_session) ''10.0.0.1'' ''A''
          1700000100 throttled_server)
       = Inl (Runtime_error ''Too many login attempts. Try again later.'')"
proof -
  have e: "exists demo_session"
    by (simp add: demo_session_def)
  have "fst (refresh_session demo_libs demo_sid (refresh_token demo_session) ''10.0.0.1'' ''A''
          1700000100 throttled_server)
       = Inl (Runtime_error ''Too many login attempts. Try again later.'')"
    by (rule refresh_session_throttled [OF throttled_load e throttled_entropy throttled_digest
          demo_refresh_valid throttled_limited])
  with e throttled_load throttled_digest demo_refresh_valid show ?thesis by simp
qed

lemma refreshable_cached: "session_cache refreshable_server demo_sid = Some demo_session"
  by (simp add: refreshable_server_def demo_server_def)

lemma refreshable_load:
  "load_session demo_libs demo_sid ''10.0.0.1'' ''A'' 1700000100 refreshable_server
     = (Inr demo_session, refreshable_server)"
  by (simp add: load_session_hit [OF refreshable_cached] demo_binding demo_refresh_now demo_expires)

lemma refreshable_entropy: "entropy refreshable_server = map word_of_nat [80..<208]"
  by (simp add: refreshable_server_def)

lemma throttled_salt: "take 16 (entropy throttled_server) = take 16 (entropy refreshable_server)"
  by (simp add: throttled_server_def refreshable_server_def take_map)

lemma refreshable_digest:
  "hash_with_salt demo_libs (refresh_token demo_session)
     (to_hex (take 16 (entropy refreshable_server))) = Inr (refresh_token_hash demo_session)"
  using throttled_digest by (simp add: throttled_salt)

lemma refreshable_create:
  "\<exists>n st'. create_session demo_libs 42 ''10.0.0.1'' ''A'' 1700000100
       (refreshable_server\<lparr>entropy := drop 16 (entropy refreshable_server)\<rparr>) = (Inr n, st')
     \<and> exists n \<and> session_id n = to_hex (map word_of_nat [96..<128])"
proof -
  let ?st = "refreshable_server\<lparr>entropy := drop 16 (entropy refreshable_server)\<rparr>"
  have e: "entropy ?st = map word_of_nat [96..<208]"
    by (simp add: refreshable_entropy drop_map)
  have a: "\<not> fst (is_rate_limited ''10.0.0.1'' 1700000100 (ip_attempts ?st))"
    by (simp add: rate_limited_iff refreshable_server_def entry_at_def default_entry_def)
  have b: "96 \<le> length (entropy ?st)"
    by (simp add: e)
  have c: "8 \<le> length (take 16 (drop 32 (entropy ?st)))"
    by (simp add: e)
  have d: "8 \<le> length (take 16 (drop 80 (entropy ?st)))"
    by (simp add: e)
  obtain n st' where s: "store_new_session demo_libs 42 ''10.0.0.1'' ''A'' 1700000100
      (to_hex (take 32 (entropy ?st))) (to_hex (take 16 (drop 32 (entropy ?st))))
      (to_hex (take 32 (take 16 (drop 32 (entropy ?st))
         @ bytes_of_string (to_hex (take 32 (entropy ?st))) @ replicate 32 0)))
      (to_hex (take 32 (drop 48 (entropy ?st))))
      (to_hex (take 32 (take 16 (drop 80 (entropy ?st))
         @ bytes_of_string (to_hex (take 32 (drop 48 (entropy ?st)))) @ replicate 32 0)))
      (?st\<lparr>ip_attempts := snd (is_rate_limited ''10.0.0.1'' 1700000100 (ip_attempts ?st)),
           entropy := drop 96 (entropy ?st)\<rparr>) = (n, st')"
    by (meson surj_pair)
  have "create_session demo_libs 42 ''10.0.0.1'' ''A'' 1700000100 ?st = (Inr n, st')"
    by (simp only: create_session_ok [OF a b stub_digest [OF c] stub_digest [OF d]] s prod.case)
  moreover have "session_id n = to_hex (take 32 (entropy ?st)) \<and> exists n"
    using store_new_session_result [of demo_libs 42 "''10.0.0.1''" "''A''" 1700000100
        "to_hex (take 32 (entropy ?st))"] s
    by (metis fst_conv)
  moreover have "take 32 (entropy ?st) = map word_of_nat [96..<128]"
    by (simp add: e take_map)
  ultimately show ?thesis by auto
qed

lemma wrong_digest:
  "hash_with_salt demo_libs ''wrong'' (to_hex (take 16 (entropy throttled_server)))
     = Inr ''505152535455565758595a5b5c5d5e5f77726f6e670000000000000000000000''"
  by code_simp

lemma early_load:
  "load_session demo_libs demo_sid ''10.0.0.1'' ''A'' 1700000100 early_refresh_server
     = (Inr (demo_session\<lparr>refresh_expires_at := ''2023-11-14 22:14:00''\<rparr>), early_refresh_server)"
proof -
  have "session_cache early_refresh_server demo_sid
      = Some (demo_session\<lparr>refresh_expires_at := ''2023-11-14 22:14:00''\<rparr>)"
    by (simp add: early_refresh_server_def)
  from load_session_hit [OF this] show ?thesis
    by (simp add: demo_binding demo_refresh_now demo_expires)
qed

lemma stranger_load:
  "load_session demo_libs demo_sid ''10.0.0.2'' ''A'' 1700000100 throttled_server
     = (Inr Session_default,
        detect_hijack_attempt demo_libs demo_sid ''10.0.0.2'' 1700000100 throttled_server)"
  by (simp add: load_session_hit [OF throttled_cached] demo_binding)

theorem refresh_session_outcome_witness:
  "load_session demo_libs demo_sid ''10.0.0.2'' ''A'' 1700000100 throttled_server
     = (Inr Session_default,
        detect_hijack_attempt demo_libs demo_sid ''10.0.0.2'' 1700000100 throttled_server)
   \<and> \<not> exists Session_default
   \<and> fst (refresh_session demo_libs demo_sid (refresh_token demo_session) ''10.0.0.2'' ''A''
          1700000100 throttled_server) = Inl (Runtime_error ''Invalid session'')
   \<and> load_session demo_libs demo_sid ''10.0.0.1'' ''A'' 1700000100 throttled_server
       = (Inr demo_session, throttled_server)
   \<and> exists demo_session
   \<and> 16 \<le> length (entropy throttled_server)
   \<and> hash_with_salt demo_libs ''wrong'' (to_hex (take 16 (entropy throttled_server)))
       = Inr ''505152535455565758595a5b5c5d5e5f77726f6e670000000000000000000000''
   \<and> ''505152535455565758595a5b5c5d5e5f77726f6e670000000000000000000000''
       \<noteq> refresh_token_hash demo_session
   \<and> fst (refresh_session demo_libs demo_sid ''wrong'' ''10.0.0.1'' ''A'' 1700000100
          throttled_server) = Inl (Runtime_error ''Invalid refresh token'')
   \<and> hash_with_salt demo_libs (refresh_token demo_session)
        (to_hex (take 16 (entropy throttled_server))) = Inr (refresh_token_hash demo_session)
   \<and> ''2023-11-14 22:14:00'' < timestamp_now demo_libs 1700000100
   \<and> fst (refresh_session demo_libs demo_sid (refresh_token demo_session) ''10.0.0.1'' ''A''
          1700000100 early_refresh_server) = Inl (Runtime_error ''Refresh token expired'')
   \<and> \<not> refresh_expires_at demo_session < timestamp_now demo_libs 1700000100
   \<and> fst (is_rate_limited ''10.0.0.1'' 1700000100 (ip_attempts throttled_server))
   \<and> fst (refresh_session demo_libs demo_sid (refresh_token demo_session) ''10.0.0.1'' ''A''
          1700000100 throttled_server)
       = Inl (Runtime_error ''Too many login attempts. Try again later.'')
   \<and> \<not> fst (is_rate_limited ''10.0.0.1'' 1700000100 (ip_attempts refreshable_server))
   \<and> (\<exists>n. fst (refresh_session demo_libs demo_sid (refresh_token demo_session) ''10.0.0.1''
               ''A'' 1700000100 refreshable_server) = Inr n
            \<and> fst (create_session demo_libs 42 ''10.0.0.1'' ''A'' 1700000100
                 (refreshable_server\<lparr>entropy := drop 16 (entropy refreshable_server)\<rparr>)) = Inr n)"
proof -
  note out = refresh_session_outcome [where L = demo_libs and sid = demo_sid and ua = "''A''"
      and now = 1700000100 and e = Undefined_behaviour]
  have nd: "\<not> exists Session_default"
    by (simp add: Session_default_def)
  have e: "exists demo_session"
    by (simp add: demo_session_def)
  have ne: "''505152535455565758595a5b5c5d5e5f77726f6e670000000000000000000000''
       \<noteq> refresh_token_hash demo_session"
    by (simp add: demo_session_def)
  have late: "''2023-11-14 22:14:00'' < timestamp_now demo_libs 1700000100"
    by (simp add: demo_refresh_now)
  have nl: "\<not> fst (is_rate_limited ''10.0.0.1'' 1700000100 (ip_attempts refreshable_server))"
    by (simp add: rate_limited_iff refreshable_server_def entry_at_def default_entry_def)
  have es: "entropy early_refresh_server = entropy throttled_server"
    by (simp add: early_refresh_server_def)
  have uid: "user_id demo_session = 42"
    by (simp add: demo_session_def)
  have a: "fst (refresh_session demo_libs demo_sid (refresh_token demo_session) ''10.0.0.2'' ''A''
          1700000100 throttled_server) = Inl (Runtime_error ''Invalid session'')"
    using out [where ip = "''10.0.0.2''" and st = throttled_server
        and tok = "refresh_token demo_session" and s = Session_default
        and ?st1.0 = "detect_hijack_attempt demo_libs demo_sid ''10.0.0.2'' 1700000100 throttled_server"
        and h = "[]" and n = demo_session]
      stranger_load nd
    by simp
  have b: "fst (refresh_session demo_libs demo_sid ''wrong'' ''10.0.0.1'' ''A'' 1700000100
          throttled_server) = Inl (Runtime_error ''Invalid refresh token'')"
    using out [where ip = "''10.0.0.1''" and st = throttled_server and tok = "''wrong''"
        and s = demo_session and ?st1.0 = throttled_server
        and h = "''505152535455565758595a5b5c5d5e5f77726f6e670000000000000000000000''"
        and n = demo_session]
      throttled_load e throttled_entropy wrong_digest ne
    by simp
  have c: "fst (refresh_session demo_libs demo_sid (refresh_token demo_session) ''10.0.0.1'' ''A''
          1700000100 early_refresh_server) = Inl (Runtime_error ''Refresh token expired'')"
    using out [where ip = "''10.0.0.1''" and st = early_refresh_server
        and tok = "refresh_token demo_session"
        and s = "demo_session\<lparr>refresh_expires_at := ''2023-11-14 22:14:00''\<rparr>"
        and ?st1.0 = early_refresh_server and h = "[]" and n = demo_session]
      early_load e throttled_entropy throttled_digest late
    by (simp add: es)
  have d: "fst (refresh_session demo_libs demo_sid (refresh_token demo_session) ''10.0.0.1'' ''A''
          1700000100 throttled_server)
       = Inl (Runtime_error ''Too many login attempts. Try again later.'')"
    using out [where ip = "''10.0.0.1''" and st = throttled_server
        and tok = "refresh_token demo_session" and s = demo_session
        and ?st1.0 = throttled_server and h = "[]" and n = demo_session]
      throttled_load e throttled_entropy throttled_digest demo_refresh_valid throttled_limited
    by blast
  obtain n st' where cr: "create_session demo_libs 42 ''10.0.0.1'' ''A'' 1700000100
       (refreshable_server\<lparr>entropy := drop 16 (entropy refreshable_server)\<rparr>) = (Inr n, st')"
    using refreshable_create by blast
  have "16 \<le> length (entropy refreshable_server)"
    by (simp add: refreshable_entropy)
  then have f: "fst (refresh_session demo_libs demo_sid (refresh_token demo_session) ''10.0.0.1''
               ''A'' 1700000100 refreshable_server) = Inr n"
    using out [where ip = "''10.0.0.1''" and st = refreshable_server
        and tok = "refresh_token demo_session" and s = demo_session
        and ?st1.0 = refreshable_server and h = "[]" and n = n]
      refreshable_load e refreshable_digest demo_refresh_valid cr
    by (simp add: uid)
  from out [where ip = "''10.0.0.1''" and st = refreshable_server
      and tok = "refresh_token demo_session" and s = demo_session
      and ?st1.0 = refreshable_server and h = "[]" and n = n] f cr refreshable_load
  have g: "fst (create_session demo_libs 42 ''10.0.0.1'' ''A'' 1700000100
       (refreshable_server\<lparr>entropy := drop 16 (entropy refreshable_server)\<rparr>)) = Inr n"
    by simp
  show ?thesis
    using stranger_load nd a throttled_load e throttled_entropy wrong_digest ne b throttled_digest
      late c demo_refresh_valid throttled_limited d nl f g
    by blast
qed

section \<open>What the durable writes of create\_session store\<close>

lemma store_new_session_audit:
  "available (db st) \<Longrightarrow>
   tables (db (snd (store_new_session L uid ip ua now sid salt sid_hash rtoken rtoken_hash st)))
     ''session_audit_log''
   = tables (db st) ''session_audit_log'' @
       [bound_values
          [(''session_id'', sid), (''user_id'', to_string uid), (''action'', ''create''),
           (''ip_address'', ip), (''user_agent'', ua), (''timestamp'', strftime_gmtime L now),
           (''details'', ''New session created'')]]"
  by (simp add: store_new_session_def Let_def log_session_event_def write_audit_log_to_db_def
      six_sql_insert_def key_conflict_def primary_key_def)

lemma session_row_no_raw_id:
  "session_row (s\<lparr>session_id := x, refresh_token := y\<rparr>) e = session_row s e
   \<and> ''session_id'' \<notin> fst ` set (session_row s e)
   \<and> map_of (session_row s e) ''session_id_hash'' = Some (session_id_hash s)
   \<and> map_of (session_row s e) ''session_salt'' = Some (session_salt s)"
  by (simp add: session_row_def)

lemma store_new_session_row:
  "available (db st) \<Longrightarrow>
   tables (db (snd (store_new_session L uid ip ua now sid salt sid_hash rtoken rtoken_hash st)))
     ''sessions''
   = tables (db st) ''sessions'' @
       (if list_ex (\<lambda>r. map_of r ''session_id_hash'' = Some (c_str sid_hash))
             (tables (db st) ''sessions'')
        then []
        else [bound_values
                (session_row
                   (fst (store_new_session L uid ip ua now sid salt sid_hash rtoken rtoken_hash st))
                   (encrypt_session_data (aes_256_encrypt L) ''{}''))])"
proof -
  have k: "map_of (bound_values (session_row s e)) ''session_id_hash''
      = Some (c_str (session_id_hash s))" for s e
    by (simp add: session_row_def bound_values_def)
  have n: "session_row s e \<noteq> []" for s e
    by (simp add: session_row_def)
  assume "available (db st)"
  then show ?thesis
    by (simp add: store_new_session_def Let_def log_session_event_def write_audit_log_to_db_def
        six_sql_insert_def key_conflict_def primary_key_def k n)
qed

lemma fresh_sid: "to_hex (take 32 (entropy fresh_server)) = demo_sid"
  by code_simp

text \<open>
  Claim C1 says that no durable write stores a raw session identifier, audit-event writes
  included. The row that \<open>create_session\<close> inserts into \<^verbatim>\<open>sessions\<close> indeed holds only
  the digest and its salt (\<open>session_row_no_raw_id\<close>, \<open>store_new_session_row\<close>). The audit write does not follow: when
  \<^verbatim>\<open>create_session(42, "10.0.0.1", "A")\<close> succeeds on a server that has just started, the
  one row of \<^verbatim>\<open>session_audit_log\<close> holds, in its column \<^verbatim>\<open>session_id\<close>, the raw
  identifier of the session that was returned to the caller.
\<close>

theorem create_session_audit_row:
  "(\<exists>s. fst (create_session demo_libs 42 ''10.0.0.1'' ''A'' 1700000000 fresh_server) = Inr s
        \<and> session_id s = demo_sid)
   \<and> map (\<lambda>r. row_get r ''session_id'')
        (tables (db (snd (create_session demo_libs 42 ''10.0.0.1'' ''A'' 1700000000 fresh_server)))
           ''session_audit_log'')
       = [demo_sid]"
proof -
  let ?st = fresh_server
  have e: "entropy ?st = map word_of_nat [0..<96]"
    by (simp add: fresh_server_def)
  have a: "\<not> fst (is_rate_limited ''10.0.0.1'' 1700000000 (ip_attempts ?st))"
    by (simp add: rate_limited_iff fresh_server_def entry_at_def default_entry_def)
  have b: "96 \<le> length (entropy ?st)"
    by (simp add: e)
  have c: "8 \<le> length (take 16 (drop 32 (entropy ?st)))"
    by (simp add: e)
  have d: "8 \<le> length (take 16 (drop 80 (entropy ?st)))"
    by (simp add: e)
  let ?st1 = "?st\<lparr>ip_attempts := snd (is_rate_limited ''10.0.0.1'' 1700000000 (ip_attempts ?st)),
           entropy := drop 96 (entropy ?st)\<rparr>"
  let ?new = "store_new_session demo_libs 42 ''10.0.0.1'' ''A'' 1700000000
      (to_hex (take 32 (entropy ?st))) (to_hex (take 16 (drop 32 (entropy ?st))))
      (to_hex (take 32 (take 16 (drop 32 (entropy ?st))
         @ bytes_of_string (to_hex (take 32 (entropy ?st))) @ replicate 32 0)))
      (to_hex (take 32 (drop 48 (entropy ?st))))
      (to_hex (take 32 (take 16 (drop 80 (entropy ?st))
         @ bytes_of_string (to_hex (take 32 (drop 48 (entropy ?st)))) @ replicate 32 0)))
      ?st1"
  have cr: "create_session demo_libs 42 ''10.0.0.1'' ''A'' 1700000000 ?st = (Inr (fst ?new), snd ?new)"
    by (simp only: create_session_ok [OF a b stub_digest [OF c] stub_digest [OF d]]
        case_prod_beta)
  have sid: "session_id (fst ?new) = demo_sid"
    using store_new_session_result [of demo_libs 42 "''10.0.0.1''" "''A''" 1700000000
        "to_hex (take 32 (entropy ?st))"]
    by (simp only: fresh_sid)
  have av: "available (db ?st1)"
    by (simp add: fresh_server_def)
  have "tables (db ?st1) ''session_audit_log'' = []"
    by (simp add: fresh_server_def)
  with store_new_session_audit [OF av, of demo_libs 42 "''10.0.0.1''" "''A''" 1700000000
      "to_hex (take 32 (entropy ?st))"]
  have "map (\<lambda>r. row_get r ''session_id'') (tables (db (snd ?new)) ''session_audit_log'') = [demo_sid]"
    by (simp only: fresh_sid) (simp add: row_get_def bound_values_def c_str_def demo_sid_def)
  with cr sid show ?thesis by simp
qed

end
